theory Spec2Isabelle
  imports Complex_Main "HOL-Library.Word" "HOL-Library.AList" "HOL-Library.Multiset"
    "HOL-Library.Char_ord" "HOL-Library.List_Lexorder"
begin

unbundle bit_operations_syntax

section \<open>Bytes and errors\<close>

text \<open>
  A Go \<open>[]byte\<close> is a list of 8-bit words; \<open>len\<close> is \<open>length\<close>. Go's \<open>int\<close> is taken
  to be 64 bits wide, so the lengths and sums of lengths below never overflow and are
  modelled as \<open>nat\<close>. A Go \<open>error\<close> built by \<open>fmt.Errorf\<close> or \<open>errors.New\<close> is a value
  carrying its message.
\<close>

type_synonym byte = "8 word"
type_synonym bytes = "byte list"

datatype error = Err string

section \<open>pkg/binarydiff: computeDiff and Patch\<close>

text \<open>
  \<open>binary.Write(&delta, binary.LittleEndian, uint32(x))\<close> appends the four bytes of
  \<open>x\<close>, least significant first; \<open>binary.LittleEndian.Uint32\<close> reads them back.
\<close>

definition put_uint32_le :: "32 word \<Rightarrow> bytes" where
  "put_uint32_le w =
     [ucast w, ucast (drop_bit 8 w), ucast (drop_bit 16 w), ucast (drop_bit 24 w)]"

definition uint32_le :: "bytes \<Rightarrow> 32 word" where
  "uint32_le b =
     ucast (b ! 0) OR push_bit 8 (ucast (b ! 1)) OR push_bit 16 (ucast (b ! 2))
       OR push_bit 24 (ucast (b ! 3))"

text \<open>
  \<open>commonPrefixLen\<close>: the loop \<open>for i := 0; i < maxLen; i++\<close> returns \<open>i\<close> at the first
  index where the slices differ and \<open>maxLen\<close> when it runs out.
\<close>

function commonPrefixLen_loop :: "bytes \<Rightarrow> bytes \<Rightarrow> nat \<Rightarrow> nat \<Rightarrow> nat" where
  "commonPrefixLen_loop a b maxLen i =
     (if i < maxLen
      then (if a ! i \<noteq> b ! i then i else commonPrefixLen_loop a b maxLen (Suc i))
      else maxLen)"
  by pat_completeness auto
termination
  by (relation "measure (\<lambda>(a, b, maxLen, i). maxLen - i)") auto

declare commonPrefixLen_loop.simps [simp del]

definition commonPrefixLen :: "bytes \<Rightarrow> bytes \<Rightarrow> nat" where
  "commonPrefixLen a b =
     (let maxLen = length a;
          maxLen = (if length b < maxLen then length b else maxLen)
      in commonPrefixLen_loop a b maxLen 0)"

text \<open>
  \<open>commonSuffixLen\<close>: the indices \<open>ai = len(a) - 1 - i\<close> and \<open>bi = len(b) - 1 - i\<close> are
  signed in the source and tested against 0, so they are integers here.
\<close>

function commonSuffixLen_loop :: "bytes \<Rightarrow> bytes \<Rightarrow> nat \<Rightarrow> nat \<Rightarrow> nat" where
  "commonSuffixLen_loop a b maxLen i =
     (if i < maxLen
      then (let ai = int (length a) - 1 - int i;
                bi = int (length b) - 1 - int i
            in if ai < 0 \<or> bi < 0 \<or> a ! nat ai \<noteq> b ! nat bi then i
               else commonSuffixLen_loop a b maxLen (Suc i))
      else maxLen)"
  by pat_completeness auto
termination
  by (relation "measure (\<lambda>(a, b, maxLen, i). maxLen - i)") auto

declare commonSuffixLen_loop.simps [simp del]

definition commonSuffixLen :: "bytes \<Rightarrow> bytes \<Rightarrow> nat" where
  "commonSuffixLen a b =
     (let maxLen = length a;
          maxLen = (if length b < maxLen then length b else maxLen)
      in commonSuffixLen_loop a b maxLen 0)"

text \<open>
  The heuristic \<open>float64(len(newData)-len(oldData))/float64(len(oldData)) > 0.5\<close>, reached
  only when \<open>len(newData) \<ge> len(oldData)\<close>. With \<open>len(oldData) = 0\<close> the quotient is
  \<open>+Inf\<close> for a non-empty \<open>newData\<close> (greater than 0.5) and \<open>NaN\<close> for an empty one
  (every comparison with \<open>NaN\<close> is false). Otherwise both lengths convert to \<open>float64\<close>
  exactly and the correctly rounded quotient exceeds 0.5 exactly when the real one does,
  for every length below \<open>2^53\<close>.
\<close>

definition exceeds_threshold :: "nat \<Rightarrow> nat \<Rightarrow> bool" where
  "exceeds_threshold oldLen newLen =
     (if oldLen = 0 then 0 < newLen else oldLen < 2 * (newLen - oldLen))"

text \<open>
  \<open>computeDiff\<close> always returns a \<open>nil\<close> error, so the model returns the bytes. The slice
  \<open>newData[middleStart:middleEnd]\<close> is \<open>take (middleEnd - middleStart) (drop middleStart newData)\<close>.
\<close>

definition computeDiff :: "bytes \<Rightarrow> bytes \<Rightarrow> bytes" where
  "computeDiff oldData newData =
     (if length newData < length oldData then newData
      else if exceeds_threshold (length oldData) (length newData) then newData
      else
        let prefixLen = commonPrefixLen oldData newData;
            suffixLen = commonSuffixLen (drop prefixLen oldData) (drop prefixLen newData);
            middleStart = prefixLen;
            middleEnd = length newData - suffixLen
        in put_uint32_le (of_nat prefixLen) @ put_uint32_le (of_nat suffixLen)
             @ take (middleEnd - middleStart) (drop middleStart newData))"

text \<open>
  \<open>Patch\<close> returns \<open>([]byte, error)\<close>; the result is \<open>Inl\<close> the error or \<open>Inr\<close> the bytes.
  Every \<open>return\<close> of the source carries a \<open>nil\<close> error. \<open>uint32(len(oldData))\<close> truncates
  to 32 bits, as \<open>of_nat\<close> does.
\<close>

definition maxPatchLen :: nat where
  "maxPatchLen = 10 * 1024 * 1024"

definition Patch :: "bytes \<Rightarrow> bytes \<Rightarrow> error + bytes" where
  "Patch oldData diffData =
     (if length diffData < 8 then Inr diffData
      else
        let prefixLen = uint32_le (take 4 diffData);
            suffixLen = uint32_le (take 4 (drop 4 diffData))
        in if prefixLen > of_nat (length oldData) \<or> suffixLen > of_nat (length oldData)
           then Inr diffData
           else
             let totalLen = unat prefixLen + length (drop 8 diffData) + unat suffixLen
             in if totalLen > maxPatchLen then Inr diffData
                else
                  let result = take (unat prefixLen) oldData @ drop 8 diffData
                  in if suffixLen > 0 \<and> unat prefixLen + unat suffixLen \<le> length oldData
                     then Inr (result @ drop (length oldData - unat suffixLen) oldData)
                     else Inr result)"

text \<open>
  Two conditions read off the code: \<open>computeDiff\<close> returns \<open>newData\<close> itself, and
  \<open>Patch\<close> returns \<open>diffData\<close> itself (fewer than 8 bytes, a header word above
  \<open>uint32(len(oldData))\<close>, or a total above the ceiling).
\<close>

definition emits_verbatim :: "bytes \<Rightarrow> bytes \<Rightarrow> bool" where
  "emits_verbatim oldData newData =
     (length newData < length oldData \<or> exceeds_threshold (length oldData) (length newData))"

definition reads_as_raw :: "bytes \<Rightarrow> bytes \<Rightarrow> bool" where
  "reads_as_raw oldData diffData =
     (length diffData < 8
      \<or> uint32_le (take 4 diffData) > of_nat (length oldData)
      \<or> uint32_le (take 4 (drop 4 diffData)) > of_nat (length oldData)
      \<or> maxPatchLen < unat (uint32_le (take 4 diffData)) + length (drop 8 diffData)
            + unat (uint32_le (take 4 (drop 4 diffData))))"

section \<open>pkg/geofence: the data model\<close>

text \<open>
  \<open>FenceType\<close> is an \<open>int32\<close> with six named values; a decoded fence can carry any
  other value, so the type is the integers and the names are constants. \<open>float64\<close>
  values are modelled as reals: rounding and infinities are not represented, and \<open>NaN\<close>
  only where \<open>math.Sqrt\<close> produces it. The theorems below compare such values only where
  the two sides differ by far more than rounding can move them. \<open>uint32\<close> fields that
  are only compared are naturals, \<open>int64\<close> timestamps are integers, and the \<open>uint64\<close>
  version is a 64-bit word.
\<close>

type_synonym FenceType = int

definition FenceTypeUnknown :: FenceType where "FenceTypeUnknown = 0"
definition FenceTypeTempRestriction :: FenceType where "FenceTypeTempRestriction = 1"
definition FenceTypePermanentNoFly :: FenceType where "FenceTypePermanentNoFly = 2"
definition FenceTypeAltitudeLimit :: FenceType where "FenceTypeAltitudeLimit = 3"
definition FenceTypeAltitudeMinimum :: FenceType where "FenceTypeAltitudeMinimum = 4"
definition FenceTypeSpeedLimit :: FenceType where "FenceTypeSpeedLimit = 5"

record Point =
  Latitude :: real
  Longitude :: real

record BoundingBox =
  MinLat :: real
  MinLon :: real
  MaxLat :: real
  MaxLon :: real

record Geometry =
  Polygon :: "Point list"
  CircleCenter :: "Point option"
  CircleRadius :: real
  BBox :: "BoundingBox option"

record FenceItem =
  ID :: string
  Type :: FenceType
  Geometry :: Geometry
  StartTS :: int
  EndTS :: int
  Priority :: nat
  MaxAltitude :: nat
  MaxSpeed :: nat
  Name :: string
  Description :: string
  Signature :: bytes
  KeyID :: string

record FenceCollection =
  Items :: "FenceItem list"
  CreatedTS :: int
  CollectionVersion :: string

record FenceDelta =
  Added :: "FenceItem list"
  RemovedIDs :: "string list"
  Updated :: "FenceItem list"

record Manifest =
  Version :: "64 word"
  Timestamp :: int
  RootHash :: bytes
  DeltaURL :: string
  SnapshotURL :: string
  DeltaSize :: "64 word"
  SnapshotSize :: "64 word"
  DeltaHash :: bytes
  SnapshotHash :: bytes
  MinClientV :: nat
  Message :: string
  ManifestSignature :: bytes
  ManifestKeyID :: string

definition BoundingBox_Contains :: "BoundingBox \<Rightarrow> Point \<Rightarrow> bool" where
  "BoundingBox_Contains b p =
     (Latitude p \<ge> MinLat b \<and> Latitude p \<le> MaxLat b \<and>
      Longitude p \<ge> MinLon b \<and> Longitude p \<le> MaxLon b)"

text \<open>\<open>IsActiveAt\<close>, with \<open>ts = t.Unix()\<close> passed in.\<close>

definition IsActiveAt :: "FenceItem \<Rightarrow> int \<Rightarrow> bool" where
  "IsActiveAt f ts =
     (if ts < StartTS f then False
      else if EndTS f > 0 \<and> ts > EndTS f then False
      else True)"

text \<open>
  \<open>pointInPolygon\<close>: the loop keeps \<open>inside\<close> and the previous index \<open>j\<close>, starting from
  \<open>j = len(polygon) - 1\<close>.
\<close>

fun pointInPolygon_loop :: "Point \<Rightarrow> Point list \<Rightarrow> nat list \<Rightarrow> nat \<Rightarrow> bool \<Rightarrow> bool" where
  "pointInPolygon_loop p polygon [] j inside = inside"
| "pointInPolygon_loop p polygon (i # is) j inside =
     (let vi = polygon ! i; vj = polygon ! j;
          inside' =
            (if ((Longitude vi > Longitude p) \<noteq> (Longitude vj > Longitude p)) \<and>
                Latitude p < (Latitude vj - Latitude vi) * (Longitude p - Longitude vi)
                               / (Longitude vj - Longitude vi + 1 / 10 ^ 10) + Latitude vi
             then \<not> inside else inside)
      in pointInPolygon_loop p polygon is i inside')"

definition pointInPolygon :: "Point \<Rightarrow> Point list \<Rightarrow> bool" where
  "pointInPolygon p polygon =
     (if length polygon < 3 then False
      else pointInPolygon_loop p polygon [0 ..< length polygon] (length polygon - 1) False)"

text \<open>
  \<open>haversineDistance\<close>. A \<open>float64\<close> is read as a real number, \<open>math.Pi\<close> as \<open>\<pi>\<close>, and
  \<open>math.Sin\<close>, \<open>math.Cos\<close> as the real functions. \<open>math.Sqrt\<close> of a negative number is
  NaN, here \<open>None\<close>; NaN goes through \<open>math.Atan2\<close> and the product, and the comparison
  \<open>distance <= radiusMeters\<close> is false on it. \<open>math.Atan2 y x\<close> is the angle of the point
  \<open>(x, y)\<close>.
\<close>

definition degToRad :: "real \<Rightarrow> real" where
  "degToRad deg = deg * pi / 180"

definition math_Sqrt :: "real \<Rightarrow> real option" where
  "math_Sqrt x = (if x < 0 then None else Some (sqrt x))"

definition math_Atan2 :: "real \<Rightarrow> real \<Rightarrow> real" where
  "math_Atan2 y x =
     (if x > 0 then arctan (y / x)
      else if x < 0 then (if y \<ge> 0 then arctan (y / x) + pi else arctan (y / x) - pi)
      else if y > 0 then pi / 2
      else if y < 0 then - pi / 2
      else 0)"

definition haversineDistance :: "Point \<Rightarrow> Point \<Rightarrow> real option" where
  "haversineDistance p1 p2 =
     (let earthRadius = 6371000;
          lat1 = degToRad (Latitude p1);
          lon1 = degToRad (Longitude p1);
          lat2 = degToRad (Latitude p2);
          lon2 = degToRad (Longitude p2);
          dLat = lat2 - lat1;
          dLon = lon2 - lon1;
          a = sin (dLat / 2) * sin (dLat / 2) +
              cos lat1 * cos lat2 * sin (dLon / 2) * sin (dLon / 2)
      in case (math_Sqrt a, math_Sqrt (1 - a)) of
           (Some y, Some x) \<Rightarrow> Some (earthRadius * (2 * math_Atan2 y x))
         | _ \<Rightarrow> None)"

definition pointInCircle :: "Point \<Rightarrow> Point \<Rightarrow> real \<Rightarrow> bool" where
  "pointInCircle p center radiusMeters =
     (case haversineDistance p center of
        Some distance \<Rightarrow> distance \<le> radiusMeters
      | None \<Rightarrow> False)"

definition Geometry_ContainsPoint :: "Geometry \<Rightarrow> Point \<Rightarrow> bool" where
  "Geometry_ContainsPoint g p =
     (case BBox g of
        Some b \<Rightarrow> BoundingBox_Contains b p
      | None \<Rightarrow>
          if length (Polygon g) > 0 then pointInPolygon p (Polygon g)
          else (case CircleCenter g of
                  Some c \<Rightarrow> pointInCircle p c (CircleRadius g)
                | None \<Rightarrow> False))"

definition ContainsPoint :: "FenceItem \<Rightarrow> Point \<Rightarrow> bool" where
  "ContainsPoint f p = Geometry_ContainsPoint (Geometry f) p"

fun boundsFromPoints_loop :: "Point list \<Rightarrow> BoundingBox \<Rightarrow> BoundingBox" where
  "boundsFromPoints_loop [] b = b"
| "boundsFromPoints_loop (p # ps) b =
     (let b1 = (if Latitude p < MinLat b then b\<lparr>MinLat := Latitude p\<rparr> else b);
          b2 = (if Latitude p > MaxLat b1 then b1\<lparr>MaxLat := Latitude p\<rparr> else b1);
          b3 = (if Longitude p < MinLon b2 then b2\<lparr>MinLon := Longitude p\<rparr> else b2);
          b4 = (if Longitude p > MaxLon b3 then b3\<lparr>MaxLon := Longitude p\<rparr> else b3)
      in boundsFromPoints_loop ps b4)"

definition zeroBoundingBox :: BoundingBox where
  "zeroBoundingBox = \<lparr>MinLat = 0, MinLon = 0, MaxLat = 0, MaxLon = 0\<rparr>"

definition boundsFromPoints :: "Point list \<Rightarrow> BoundingBox" where
  "boundsFromPoints points =
     (case points of
        [] \<Rightarrow> zeroBoundingBox
      | p0 # rest \<Rightarrow>
          boundsFromPoints_loop rest
            \<lparr>MinLat = Latitude p0, MinLon = Longitude p0,
             MaxLat = Latitude p0, MaxLon = Longitude p0\<rparr>)"

definition cosDegrees :: "real \<Rightarrow> real" where
  "cosDegrees deg =
     (let rad = deg * (17453292519943295 / 10 ^ 18); x = rad * rad
      in 1 - x / 2 + x * x / 24)"

definition GetBounds :: "FenceItem \<Rightarrow> BoundingBox" where
  "GetBounds f =
     (case BBox (Geometry f) of
        Some b \<Rightarrow> b
      | None \<Rightarrow>
          if length (Polygon (Geometry f)) > 0 then boundsFromPoints (Polygon (Geometry f))
          else (case CircleCenter (Geometry f) of
                  Some c \<Rightarrow>
                    let latDelta = CircleRadius (Geometry f) / 111000;
                        lonDelta = (CircleRadius (Geometry f) / 111000) / cosDegrees (Latitude c)
                    in \<lparr>MinLat = Latitude c - latDelta, MinLon = Longitude c - lonDelta,
                        MaxLat = Latitude c + latDelta, MaxLon = Longitude c + lonDelta\<rparr>
                | None \<Rightarrow> zeroBoundingBox))"

section \<open>pkg/geofence: ApplyDelta\<close>

text \<open>
  \<open>fenceMap\<close> is a Go map from fence id to fence: an association list with distinct
  keys, \<open>fenceMap[k] = v\<close> being \<open>AList.update k v\<close> and \<open>delete(fenceMap, k)\<close> being
  \<open>AList.delete k\<close>. Each loop of the source is a recursion over the slice it ranges over.
\<close>

fun ApplyDelta_load :: "FenceItem list \<Rightarrow> (string \<times> FenceItem) list \<Rightarrow> (string \<times> FenceItem) list" where
  "ApplyDelta_load [] fenceMap = fenceMap"
| "ApplyDelta_load (f # fs) fenceMap = ApplyDelta_load fs (AList.update (ID f) f fenceMap)"

fun ApplyDelta_remove :: "string list \<Rightarrow> (string \<times> FenceItem) list \<Rightarrow> (string \<times> FenceItem) list" where
  "ApplyDelta_remove [] fenceMap = fenceMap"
| "ApplyDelta_remove (i # is) fenceMap = ApplyDelta_remove is (AList.delete i fenceMap)"

fun ApplyDelta_add :: "FenceItem list \<Rightarrow> (string \<times> FenceItem) list \<Rightarrow> error + (string \<times> FenceItem) list" where
  "ApplyDelta_add [] fenceMap = Inr fenceMap"
| "ApplyDelta_add (f # fs) fenceMap =
     (if map_of fenceMap (ID f) \<noteq> None
      then Inl (Err (''fence '' @ ID f @ '' already exists''))
      else ApplyDelta_add fs (AList.update (ID f) f fenceMap))"

fun ApplyDelta_update :: "FenceItem list \<Rightarrow> (string \<times> FenceItem) list \<Rightarrow> error + (string \<times> FenceItem) list" where
  "ApplyDelta_update [] fenceMap = Inr fenceMap"
| "ApplyDelta_update (f # fs) fenceMap =
     (if map_of fenceMap (ID f) = None
      then Inl (Err (''fence '' @ ID f @ '' does not exist''))
      else ApplyDelta_update fs (AList.update (ID f) f fenceMap))"

text \<open>
  The last loop appends the values of the map in Go's iteration order, which the language
  leaves unspecified; the model lists them in the order of the association list.
\<close>

definition ApplyDelta :: "FenceItem list \<Rightarrow> FenceDelta \<Rightarrow> error + FenceItem list" where
  "ApplyDelta existing delta =
     (let fenceMap = ApplyDelta_load existing [];
          fenceMap = ApplyDelta_remove (RemovedIDs delta) fenceMap
      in case ApplyDelta_add (Added delta) fenceMap of
           Inl e \<Rightarrow> Inl e
         | Inr fenceMap \<Rightarrow>
             (case ApplyDelta_update (Updated delta) fenceMap of
                Inl e \<Rightarrow> Inl e
              | Inr fenceMap \<Rightarrow> Inr (map snd fenceMap)))"

text \<open>
  The claim's words, for comparison with the code. The error condition as the claim
  states it: an added fence whose id is still present after the removals, or an updated
  fence whose id is not present. The result as the claim states it: the fences of
  \<open>existing\<close> whose id is neither removed nor updated, every added fence and every
  updated fence.
\<close>

definition claimed_error :: "FenceItem list \<Rightarrow> FenceDelta \<Rightarrow> bool" where
  "claimed_error existing delta =
     (let remaining = filter (\<lambda>i. i \<notin> set (RemovedIDs delta)) (map ID existing)
      in list_ex (\<lambda>f. ID f \<in> set remaining) (Added delta) \<or>
         list_ex (\<lambda>f. ID f \<notin> set remaining \<union> set (map ID (Added delta))) (Updated delta))"

text \<open>
  What the code does: the same, and an added fence is also refused when an earlier added
  fence has its id. The map read from a fence list keeps, for each id, the last fence
  carrying it.
\<close>

definition fenceMap_of :: "FenceItem list \<Rightarrow> (string \<rightharpoonup> FenceItem)" where
  "fenceMap_of fs = map_of (rev (map (\<lambda>f. (ID f, f)) fs))"

definition ApplyDelta_error :: "FenceItem list \<Rightarrow> FenceDelta \<Rightarrow> bool" where
  "ApplyDelta_error existing delta =
     (claimed_error existing delta \<or> \<not> distinct (map ID (Added delta)))"

definition ApplyDelta_map :: "FenceItem list \<Rightarrow> FenceDelta \<Rightarrow> (string \<rightharpoonup> FenceItem)" where
  "ApplyDelta_map existing delta =
     (fenceMap_of existing |` (- set (RemovedIDs delta)))
        ++ fenceMap_of (Added delta) ++ fenceMap_of (Updated delta)"

text \<open>The map under construction is keyed by the id of the fence it holds.\<close>

definition keyed :: "(string \<times> FenceItem) list \<Rightarrow> bool" where
  "keyed m = (distinct (map fst m) \<and> list_all (\<lambda>(k, v). k = ID v) m)"

text \<open>A fence for the concrete inputs below.\<close>

definition fence_x :: FenceItem where
  "fence_x = \<lparr>ID = ''x'', Type = FenceTypePermanentNoFly,
     Geometry = \<lparr>Polygon = [], CircleCenter = None, CircleRadius = 0, BBox = None\<rparr>,
     StartTS = 0, EndTS = 0, Priority = 1, MaxAltitude = 0, MaxSpeed = 0,
     Name = [], Description = [], Signature = [], KeyID = []\<rparr>"

section \<open>pkg/storage: the SQLite store\<close>

text \<open>
  The database is a value: the table \<open>fences\<close> as its rows \<open>(rowid, fence)\<close> in rowid
  order, the R-Tree table \<open>fence_index\<close> as its entries \<open>(rowid, box)\<close>, the two rows of
  \<open>metadata\<close> the code uses, and the \<open>AUTOINCREMENT\<close> counter. The columns \<open>created_at\<close>
  and \<open>updated_at\<close> are never read and are left out.

  Every call into \<open>database/sql\<close> can return an error (I/O, a cancelled context). The
  list of booleans is the environment's answer to the calls still to come: the head is
  consumed by the next call and \<open>True\<close> makes it fail; an exhausted list means no further
  failure. The constraints the schema declares (\<open>id UNIQUE\<close>, the R-Tree's \<open>rowid\<close>
  key) fail the statement whatever the list says.

  A transaction works on a copy of the database: \<open>Commit\<close> makes the copy the database,
  and a return before it (the deferred \<open>Rollback\<close>) leaves the database as it was.
  \<open>json.Marshal\<close> of a geometry fails only on \<open>NaN\<close> or an infinity, which the reals do
  not have, so it has no failing branch here.
\<close>

record Store =
  fences :: "(int \<times> FenceItem) list"
  fence_index :: "(int \<times> BoundingBox) list"
  metadata_manifest :: "Manifest option"
  metadata_version :: "64 word option"
  sqlite_sequence :: int

definition db_call :: "bool list \<Rightarrow> bool \<times> bool list" where
  "db_call io = (case io of [] \<Rightarrow> (False, []) | failed # rest \<Rightarrow> (failed, rest))"

definition ErrFenceNotFound :: error where
  "ErrFenceNotFound = Err ''fence not found''"

text \<open>
  \<open>AUTOINCREMENT\<close>: the new rowid is one more than the largest rowid the table has ever
  held.
\<close>

definition next_rowid :: "Store \<Rightarrow> int" where
  "next_rowid s = fold max (map fst (fences s)) (sqlite_sequence s) + 1"

text \<open>\<open>SELECT rowid FROM fences WHERE id = ?\<close>: the first matching row, if any.\<close>

definition select_rowid :: "Store \<Rightarrow> string \<Rightarrow> int option" where
  "select_rowid s i =
     (case filter (\<lambda>(r, g). ID g = i) (fences s) of [] \<Rightarrow> None | (r, g) # rest \<Rightarrow> Some r)"

definition AddFence :: "FenceItem \<Rightarrow> Store \<Rightarrow> bool list \<Rightarrow> error option \<times> Store \<times> bool list" where
  "AddFence fence s io =
     (let bounds = GetBounds fence in
      case db_call io of
        (True, io) \<Rightarrow> (Some (Err ''failed to begin transaction''), s, io)
      | (False, io) \<Rightarrow>
     (case db_call io of (failed, io) \<Rightarrow>
        if failed \<or> ID fence \<in> set (map (\<lambda>(r, g). ID g) (fences s))
        then (Some (Err ''failed to insert fence''), s, io)
        else
          let rowID = next_rowid s;
              tx = s\<lparr>fences := fences s @ [(rowID, fence)], sqlite_sequence := rowID\<rparr>
          in
     (case db_call io of
        (True, io) \<Rightarrow> (Some (Err ''failed to get rowid''), s, io)
      | (False, io) \<Rightarrow>
     (case db_call io of (failed, io) \<Rightarrow>
        if failed \<or> rowID \<in> set (map fst (fence_index tx))
        then (Some (Err ''failed to insert into rtree''), s, io)
        else
          let tx = tx\<lparr>fence_index := fence_index tx @ [(rowID, bounds)]\<rparr> in
     (case db_call io of
        (True, io) \<Rightarrow> (Some (Err ''failed to commit transaction''), s, io)
      | (False, io) \<Rightarrow> (None, tx, io))))))"

definition UpdateFence :: "FenceItem \<Rightarrow> Store \<Rightarrow> bool list \<Rightarrow> error option \<times> Store \<times> bool list" where
  "UpdateFence fence s io =
     (let bounds = GetBounds fence in
      case db_call io of
        (True, io) \<Rightarrow> (Some (Err ''failed to begin transaction''), s, io)
      | (False, io) \<Rightarrow>
     (case db_call io of
        (True, io) \<Rightarrow> (Some (Err ''failed to update fence''), s, io)
      | (False, io) \<Rightarrow>
          let rows = length (filter (\<lambda>(r, g). ID g = ID fence) (fences s));
              tx = s\<lparr>fences := map (\<lambda>(r, g). if ID g = ID fence then (r, fence) else (r, g))
                                   (fences s)\<rparr>
          in
     (case db_call io of
        (True, io) \<Rightarrow> (Some (Err ''failed to get rows affected''), s, io)
      | (False, io) \<Rightarrow>
        if rows = 0 then (Some ErrFenceNotFound, s, io)
        else
     (case db_call io of
        (True, io) \<Rightarrow> (Some (Err ''failed to update rtree''), s, io)
      | (False, io) \<Rightarrow>
          let target = select_rowid tx (ID fence);
              tx = tx\<lparr>fence_index := map (\<lambda>(r, b). if Some r = target then (r, bounds) else (r, b))
                                        (fence_index tx)\<rparr>
          in
     (case db_call io of
        (True, io) \<Rightarrow> (Some (Err ''failed to commit transaction''), s, io)
      | (False, io) \<Rightarrow> (None, tx, io))))))"

definition DeleteFence :: "string \<Rightarrow> Store \<Rightarrow> bool list \<Rightarrow> error option \<times> Store \<times> bool list" where
  "DeleteFence i s io =
     (case db_call io of
        (True, io) \<Rightarrow> (Some (Err ''failed to begin transaction''), s, io)
      | (False, io) \<Rightarrow>
     (case db_call io of
        (True, io) \<Rightarrow> (Some (Err ''failed to get rowid''), s, io)
      | (False, io) \<Rightarrow>
     (case select_rowid s i of
        None \<Rightarrow> (Some ErrFenceNotFound, s, io)
      | Some rowID \<Rightarrow>
     (case db_call io of
        (True, io) \<Rightarrow> (Some (Err ''failed to delete fence''), s, io)
      | (False, io) \<Rightarrow>
          let rows = length (filter (\<lambda>(r, g). ID g = i) (fences s));
              tx = s\<lparr>fences := filter (\<lambda>(r, g). ID g \<noteq> i) (fences s)\<rparr>
          in
     (case db_call io of
        (True, io) \<Rightarrow> (Some (Err ''failed to get rows affected''), s, io)
      | (False, io) \<Rightarrow>
        if rows = 0 then (Some ErrFenceNotFound, s, io)
        else
     (case db_call io of
        (True, io) \<Rightarrow> (Some (Err ''failed to delete from rtree''), s, io)
      | (False, io) \<Rightarrow>
          let tx = tx\<lparr>fence_index := filter (\<lambda>(r, b). r \<noteq> rowID) (fence_index tx)\<rparr> in
     (case db_call io of
        (True, io) \<Rightarrow> (Some (Err ''failed to commit transaction''), s, io)
      | (False, io) \<Rightarrow> (None, tx, io))))))))"

text \<open>
  \<open>ORDER BY priority DESC\<close>: SQL leaves the order of rows of equal priority open. SQLite
  returns them in the order in which its scan reaches them: the scan of the priority
  index or of the table for \<open>ListFences\<close>, the traversal of the R-Tree for
  \<open>QueryAtPoint\<close>. That order belongs to the engine and depends on the history of the
  tables, so it is a parameter: \<open>row_order\<close> rearranges the rows a query matches, and
  the sort by priority keeps rows of equal priority in the order \<open>row_order\<close> gave them.
  Reading the rows (\<open>Scan\<close>, \<open>rows.Err\<close>) is a second call that can fail.
\<close>

definition order_by_priority_desc ::
  "(FenceItem list \<Rightarrow> FenceItem list) \<Rightarrow> FenceItem list \<Rightarrow> FenceItem list" where
  "order_by_priority_desc row_order rows = sort_key (\<lambda>f. - int (Priority f)) (row_order rows)"

definition ListFences ::
  "(FenceItem list \<Rightarrow> FenceItem list) \<Rightarrow> Store \<Rightarrow> bool list
     \<Rightarrow> (error + FenceItem list) \<times> bool list" where
  "ListFences row_order s io =
     (case db_call io of
        (True, io) \<Rightarrow> (Inl (Err ''failed to query fences''), io)
      | (False, io) \<Rightarrow>
     (case db_call io of
        (True, io) \<Rightarrow> (Inl (Err ''failed to scan fence''), io)
      | (False, io) \<Rightarrow> (Inr (order_by_priority_desc row_order (map snd (fences s))), io)))"

text \<open>
  \<open>QueryAtPoint\<close>: the join of \<open>fences\<close> with \<open>fence_index\<close> on the rowid, the R-Tree
  condition on the box, then the exact test \<open>ContainsPoint && IsActiveNow\<close> on each row
  read. \<open>now\<close> is \<open>time.Now().Unix()\<close>.
\<close>

definition rtree_covers :: "BoundingBox \<Rightarrow> real \<Rightarrow> real \<Rightarrow> bool" where
  "rtree_covers b lat lon = (MinLon b \<le> lon \<and> MaxLon b \<ge> lon \<and> MinLat b \<le> lat \<and> MaxLat b \<ge> lat)"

definition joined_rows :: "Store \<Rightarrow> real \<Rightarrow> real \<Rightarrow> FenceItem list" where
  "joined_rows s lat lon =
     concat (map (\<lambda>(r, f). map (\<lambda>(r', b). f)
                   (filter (\<lambda>(r', b). r' = r \<and> rtree_covers b lat lon) (fence_index s)))
                 (fences s))"

definition QueryAtPoint ::
  "(FenceItem list \<Rightarrow> FenceItem list) \<Rightarrow> int \<Rightarrow> Store \<Rightarrow> real \<Rightarrow> real \<Rightarrow> bool list
     \<Rightarrow> (error + FenceItem list) \<times> bool list" where
  "QueryAtPoint row_order now s lat lon io =
     (case db_call io of
        (True, io) \<Rightarrow> (Inl (Err ''failed to query rtree''), io)
      | (False, io) \<Rightarrow>
          let point = \<lparr>Latitude = lat, Longitude = lon\<rparr> in
     (case db_call io of
        (True, io) \<Rightarrow> (Inl (Err ''failed to scan fence''), io)
      | (False, io) \<Rightarrow>
          (Inr (filter (\<lambda>fence. ContainsPoint fence point \<and> IsActiveAt fence now)
                  (order_by_priority_desc row_order (joined_rows s lat lon))), io)))"

definition SetManifest :: "Manifest \<Rightarrow> Store \<Rightarrow> bool list \<Rightarrow> error option \<times> Store \<times> bool list" where
  "SetManifest manifest s io =
     (case db_call io of
        (True, io) \<Rightarrow> (Some (Err ''failed to store manifest''), s, io)
      | (False, io) \<Rightarrow> (None, s\<lparr>metadata_manifest := Some manifest\<rparr>, io))"

definition SetVersion :: "64 word \<Rightarrow> Store \<Rightarrow> bool list \<Rightarrow> error option \<times> Store \<times> bool list" where
  "SetVersion version s io =
     (case db_call io of
        (True, io) \<Rightarrow> (Some (Err ''failed to store version''), s, io)
      | (False, io) \<Rightarrow> (None, s\<lparr>metadata_version := Some version\<rparr>, io))"

definition GetVersion :: "Store \<Rightarrow> bool list \<Rightarrow> (error + 64 word) \<times> bool list" where
  "GetVersion s io =
     (case db_call io of
        (True, io) \<Rightarrow> (Inl (Err ''failed to query version''), io)
      | (False, io) \<Rightarrow> (Inr (case metadata_version s of None \<Rightarrow> 0 | Some v \<Rightarrow> v), io))"

text \<open>
  \<open>BeginTx\<close> opens a transaction on the handle \<open>*sql.Tx\<close>. Only statements executed
  through that handle belong to it; the store's methods run theirs on \<open>s.db\<close>, each in a
  transaction of its own or alone. The handle's transaction therefore holds no
  statement: its \<open>Commit\<close> and \<open>Rollback\<close> leave the database as it is.
\<close>

definition BeginTx :: "bool list \<Rightarrow> error option \<times> bool list" where
  "BeginTx io =
     (case db_call io of
        (True, io) \<Rightarrow> (Some (Err ''failed to begin transaction''), io)
      | (False, io) \<Rightarrow> (None, io))"

definition Tx_Commit :: "bool list \<Rightarrow> error option \<times> bool list" where
  "Tx_Commit io =
     (case db_call io of
        (True, io) \<Rightarrow> (Some (Err ''commit failed''), io)
      | (False, io) \<Rightarrow> (None, io))"

text \<open>The store after \<open>Open\<close> on a new file: empty tables.\<close>

definition empty_store :: Store where
  "empty_store = \<lparr>fences = [], fence_index = [], metadata_manifest = None,
                   metadata_version = None, sqlite_sequence = 0\<rparr>"

text \<open>
  The store's mutations as values, to speak of sequences of them: each runs with the
  failures the environment deals it and hands the rest on.
\<close>

datatype mutation = MAddFence FenceItem | MUpdateFence FenceItem | MDeleteFence string

fun apply_mutation :: "mutation \<Rightarrow> Store \<Rightarrow> bool list \<Rightarrow> error option \<times> Store \<times> bool list" where
  "apply_mutation (MAddFence f) s io = AddFence f s io"
| "apply_mutation (MUpdateFence f) s io = UpdateFence f s io"
| "apply_mutation (MDeleteFence i) s io = DeleteFence i s io"

fun run_mutations :: "mutation list \<Rightarrow> Store \<Rightarrow> bool list \<Rightarrow> Store \<times> bool list" where
  "run_mutations [] s io = (s, io)"
| "run_mutations (m # ms) s io =
     (case apply_mutation m s io of (err, s', io') \<Rightarrow> run_mutations ms s' io')"

text \<open>
  One-to-one correspondence of the two tables: no rowid twice in either, and the same
  rowids in both.
\<close>

definition index_consistent :: "Store \<Rightarrow> bool" where
  "index_consistent s =
     (distinct (map fst (fences s)) \<and> distinct (map fst (fence_index s)) \<and>
      set (map fst (fences s)) = set (map fst (fence_index s)))"

text \<open>
  The invariant the store's mutations keep: the correspondence above, and no fence id
  twice in the table (\<open>id UNIQUE\<close>).
\<close>

definition store_inv :: "Store \<Rightarrow> bool" where
  "store_inv s = (index_consistent s \<and> distinct (map (\<lambda>(r, g). ID g) (fences s)))"

section \<open>Library functions outside the repository\<close>

text \<open>
  SHA-256, Ed25519 and \<open>encoding/json\<close> are Go's, not the repository's, and the order in
  which SQLite returns rows of equal priority is the engine's. The model takes them as
  the fields of a record passed to every function that calls them, and the theorems
  state what they assume of them.
\<close>

record DeltaFile =
  FromVersion :: "64 word"
  ToVersion :: "64 word"
  FromSize :: int
  ToSize :: int
  DiffData :: bytes
  DiffHash :: bytes

record Lib =
  SHA256 :: "bytes \<Rightarrow> bytes"
  ed25519_Sign :: "bytes \<Rightarrow> bytes \<Rightarrow> bytes"
  ed25519_Verify :: "bytes \<Rightarrow> bytes \<Rightarrow> bytes \<Rightarrow> bool"
  json_Marshal_FenceItem :: "FenceItem \<Rightarrow> bytes"
  json_Unmarshal_FenceItem :: "bytes \<Rightarrow> FenceItem option"
  json_Marshal_FenceCollection :: "FenceCollection \<Rightarrow> bytes"
  json_Unmarshal_FenceCollection :: "bytes \<Rightarrow> FenceCollection option"
  json_Unmarshal_DeltaFile :: "bytes \<Rightarrow> DeltaFile option"
  json_Marshal_Manifest :: "Manifest \<Rightarrow> bytes"
  json_MarshalIndent_Manifest :: "Manifest \<Rightarrow> bytes"
  json_Unmarshal_Manifest :: "bytes \<Rightarrow> Manifest option"
  sqlite_row_order :: "FenceItem list \<Rightarrow> FenceItem list"

section \<open>pkg/merkle: the tree, proofs and their verification\<close>

text \<open>
  A \<open>*Node\<close> is a node value tagged with its address: the source compares nodes by
  pointer (\<open>parent.Left == current\<close>, \<open>current != t.root\<close>), the model by address.
  \<open>NewTree\<close> numbers the leaves from 0 in sorted order and \<open>buildTree\<close> gives every parent
  it allocates the next free address. A \<open>Hash\<close> is the 32-byte array SHA-256 returns.
\<close>

datatype Node =
  Node (Addr: nat) (Hash: bytes) (Left: "Node option") (Right: "Node option")
       (Leaf: bool) (LeafID: string) (LeafData: bytes)

record Tree =
  root :: "Node option"
  leaves :: "(string \<times> Node) list"

definition same_node :: "Node option \<Rightarrow> Node \<Rightarrow> bool" where
  "same_node p n = (case p of None \<Rightarrow> False | Some m \<Rightarrow> Addr m = Addr n)"

text \<open>
  The inner loop of \<open>buildTree\<close>, \<open>for i := 0; i < len(nodes); i += 2\<close>: \<open>left\<close> is
  \<open>nodes[i]\<close>, \<open>right\<close> is \<open>nodes[i+1]\<close> or \<open>nil\<close> when there is none, and the parent's hash
  is the SHA-256 of what was written to the hasher: \<open>left.Hash\<close>, then \<open>right.Hash\<close> if
  \<open>right\<close> is not \<open>nil\<close>.
\<close>

fun buildLevel :: "Lib \<Rightarrow> nat \<Rightarrow> Node list \<Rightarrow> Node list" where
  "buildLevel lib a (left # right # rest) =
     Node a (SHA256 lib (Hash left @ Hash right)) (Some left) (Some right) False [] []
       # buildLevel lib (Suc a) rest"
| "buildLevel lib a [left] =
     [Node a (SHA256 lib (Hash left)) (Some left) None False [] []]"
| "buildLevel lib a [] = []"

lemma length_buildLevel: "length (buildLevel lib a nodes) = (length nodes + 1) div 2"
  by (induction lib a nodes rule: buildLevel.induct) simp_all

function buildTree_loop :: "Lib \<Rightarrow> nat \<Rightarrow> Node list \<Rightarrow> Node list" where
  "buildTree_loop lib a nodes =
     (if length nodes > 1
      then buildTree_loop lib (a + length (buildLevel lib a nodes)) (buildLevel lib a nodes)
      else nodes)"
  by pat_completeness auto
termination
  by (relation "measure (\<lambda>(lib, a, nodes). length nodes)") (auto simp: length_buildLevel)

declare buildTree_loop.simps [simp del]

definition buildTree :: "Lib \<Rightarrow> nat \<Rightarrow> Node list \<Rightarrow> Node option" where
  "buildTree lib a nodes =
     (if length nodes = 0 then None
      else if length nodes = 1 then Some (hd nodes)
      else (case buildTree_loop lib a nodes of [] \<Rightarrow> None | n # rest \<Rightarrow> Some n))"

text \<open>
  \<open>NewTree\<close>: \<open>sort.Slice\<close> by id (bytewise string order; the order of fences with equal
  ids is open in Go, the model keeps theirs), one leaf per fence, hashed over the JSON of
  the fence with the signature cleared. \<open>json.Marshal\<close> of a fence has no failing branch
  here (see the store).
\<close>

fun NewTree_leaves :: "Lib \<Rightarrow> nat \<Rightarrow> FenceItem list \<Rightarrow> Node list" where
  "NewTree_leaves lib a [] = []"
| "NewTree_leaves lib a (fence # rest) =
     (let data = json_Marshal_FenceItem lib fence;
          fenceCopy = fence\<lparr>Signature := []\<rparr>;
          dataForHash = json_Marshal_FenceItem lib fenceCopy;
          h = SHA256 lib dataForHash
      in Node a h None None True (ID fence) data # NewTree_leaves lib (Suc a) rest)"

definition NewTree :: "Lib \<Rightarrow> FenceItem list \<Rightarrow> Tree" where
  "NewTree lib fenceItems =
     (if length fenceItems = 0 then \<lparr>root = None, leaves = []\<rparr>
      else
        let sortedFences = sort_key ID fenceItems;
            nodes = NewTree_leaves lib 0 sortedFences
        in \<lparr>root = buildTree lib (length nodes) nodes,
            leaves = fold (\<lambda>n m. AList.update (LeafID n) n m) nodes []\<rparr>)"

definition Tree_RootHash :: "Tree \<Rightarrow> bytes" where
  "Tree_RootHash t = (case root t of None \<Rightarrow> replicate 32 0 | Some n \<Rightarrow> Hash n)"

fun findParentRecursive :: "Node option \<Rightarrow> Node \<Rightarrow> Node option" where
  "findParentRecursive None child = None"
| "findParentRecursive (Some (Node addr hash left right leaf leafID leafData)) child =
     (if leaf then None
      else if same_node left child \<or> same_node right child
      then Some (Node addr hash left right leaf leafID leafData)
      else (case findParentRecursive left child of
              Some parent \<Rightarrow> Some parent
            | None \<Rightarrow> findParentRecursive right child))"

definition findParent :: "Tree \<Rightarrow> Node \<Rightarrow> Node option" where
  "findParent t child = findParentRecursive (root t) child"

text \<open>
  The loop of \<open>GetProof\<close> climbs from the leaf while \<open>current != t.root\<close>. Nothing in the
  loop bounds it, so it is a partial function: \<open>None\<close> is a run that does not return.
  In the \<open>else\<close> branch the source reads \<open>parent.Left.Hash\<close> without a \<open>nil\<close> check.
\<close>

partial_function (option) GetProof_loop :: "Tree \<Rightarrow> Node \<Rightarrow> bytes list \<Rightarrow> (error + bytes list) option" where
  "GetProof_loop t current proof =
     (if same_node (root t) current then Some (Inr proof)
      else
        (case findParent t current of
           None \<Rightarrow> Some (Inr proof)
         | Some parent \<Rightarrow>
             if same_node (Left parent) current
             then
               (let siblingHash = (case Right parent of None \<Rightarrow> [] | Some r \<Rightarrow> Hash r);
                    proof = (if length siblingHash > 0 then proof @ [siblingHash] else proof)
                in GetProof_loop t parent proof)
             else
               (case Left parent of
                  None \<Rightarrow> Some (Inl (Err ''nil pointer dereference''))
                | Some l \<Rightarrow>
                    (let siblingHash = Hash l;
                         proof = (if length siblingHash > 0 then proof @ [siblingHash] else proof)
                     in GetProof_loop t parent proof))))"

definition GetProof :: "Tree \<Rightarrow> string \<Rightarrow> (error + bytes list) option" where
  "GetProof t fenceID =
     (case map_of (leaves t) fenceID of
        None \<Rightarrow> Some (Inl (Err (''fence not found: '' @ fenceID)))
      | Some leaf \<Rightarrow> GetProof_loop t leaf [])"

text \<open>
  \<open>VerifyProof\<close>: \<open>hasher.Sum(nil)\<close> is the SHA-256 of \<open>currentHash\<close> followed by
  \<open>siblingHash\<close>, and \<open>sha256.Sum256\<close> hashes that digest once more.
\<close>

fun VerifyProof_loop :: "Lib \<Rightarrow> bytes list \<Rightarrow> bytes \<Rightarrow> bytes" where
  "VerifyProof_loop lib [] currentHash = currentHash"
| "VerifyProof_loop lib (siblingHash # rest) currentHash =
     (if length siblingHash = 0 then VerifyProof_loop lib rest currentHash
      else VerifyProof_loop lib rest (SHA256 lib (SHA256 lib (currentHash @ siblingHash))))"

definition VerifyProof :: "Lib \<Rightarrow> string \<Rightarrow> bytes \<Rightarrow> bytes list \<Rightarrow> bytes \<Rightarrow> error + bool" where
  "VerifyProof lib fenceID fenceData proof rootHash =
     (case json_Unmarshal_FenceItem lib fenceData of
        None \<Rightarrow> Inl (Err ''failed to unmarshal fence'')
      | Some fence \<Rightarrow>
          let fence = fence\<lparr>Signature := []\<rparr>;
              data = json_Marshal_FenceItem lib fence;
              h = SHA256 lib data;
              currentHash = VerifyProof_loop lib proof h
          in Inr (currentHash = rootHash))"

text \<open>The hash \<open>NewTree\<close> gives the leaf of a fence.\<close>

definition leaf_hash :: "Lib \<Rightarrow> FenceItem \<Rightarrow> bytes" where
  "leaf_hash lib f = SHA256 lib (json_Marshal_FenceItem lib (f\<lparr>Signature := []\<rparr>))"

section \<open>pkg/crypto, pkg/publisher, pkg/client: signing and verifying the manifest\<close>

definition PublicKeySize :: nat where "PublicKeySize = 32"
definition SignatureSize :: nat where "SignatureSize = 64"
definition KeyIDSize :: nat where "KeyIDSize = 8"

record KeyPair =
  PublicKey :: bytes
  PrivateKey :: bytes
  KeyPairKeyID :: string

definition hex_digit :: "nat \<Rightarrow> char" where
  "hex_digit n = ''0123456789abcdef'' ! n"

definition hex_EncodeToString :: "bytes \<Rightarrow> string" where
  "hex_EncodeToString bs =
     concat (map (\<lambda>b. [hex_digit (unat (drop_bit 4 b)), hex_digit (unat (b AND 15))]) bs)"

definition ComputeSHA256 :: "Lib \<Rightarrow> bytes \<Rightarrow> bytes" where
  "ComputeSHA256 lib data = SHA256 lib data"

definition VerifyHash :: "Lib \<Rightarrow> bytes \<Rightarrow> bytes \<Rightarrow> bool" where
  "VerifyHash lib data expectedHash = (ComputeSHA256 lib data = expectedHash)"

definition computeKeyID :: "Lib \<Rightarrow> bytes \<Rightarrow> string" where
  "computeKeyID lib publicKey = hex_EncodeToString (take KeyIDSize (SHA256 lib publicKey))"

definition PublicKeyToKeyID :: "Lib \<Rightarrow> bytes \<Rightarrow> error + string" where
  "PublicKeyToKeyID lib publicKey =
     (if length publicKey \<noteq> PublicKeySize then Inl (Err ''invalid public key size'')
      else Inr (computeKeyID lib publicKey))"

text \<open>\<open>KeyPair.Sign\<close> panics without a private key; the panic is an error value.\<close>

definition KeyPair_Sign :: "Lib \<Rightarrow> KeyPair \<Rightarrow> bytes \<Rightarrow> error + bytes" where
  "KeyPair_Sign lib k message =
     (if length (PrivateKey k) = 0 then Inl (Err ''panic: private key not available'')
      else Inr (ed25519_Sign lib (PrivateKey k) message))"

definition Verify :: "Lib \<Rightarrow> bytes \<Rightarrow> bytes \<Rightarrow> bytes \<Rightarrow> bool" where
  "Verify lib publicKey message signature =
     (if length publicKey \<noteq> PublicKeySize then False
      else if length signature \<noteq> SignatureSize then False
      else ed25519_Verify lib publicKey message signature)"

text \<open>
  \<open>Manifest.MarshalBinaryForSigning\<close> marshals a copy with \<open>Signature = nil\<close>; a \<open>nil\<close>
  slice and an empty one are both the empty list.
\<close>

definition MarshalBinaryForSigning :: "Lib \<Rightarrow> Manifest \<Rightarrow> bytes" where
  "MarshalBinaryForSigning lib m = json_Marshal_Manifest lib (m\<lparr>ManifestSignature := []\<rparr>)"

definition SetSignature :: "Manifest \<Rightarrow> bytes \<Rightarrow> string \<Rightarrow> Manifest" where
  "SetSignature m sig keyID = m\<lparr>ManifestSignature := sig, ManifestKeyID := keyID\<rparr>"

text \<open>
  \<open>Publisher.Publish\<close>, the two lines under "Sign manifest", and \<open>writeManifest\<close>, whose
  bytes are the file \<open>manifest.json\<close> the client downloads.
\<close>

definition Publish_sign :: "Lib \<Rightarrow> KeyPair \<Rightarrow> Manifest \<Rightarrow> error + Manifest" where
  "Publish_sign lib keyPair manifest =
     (let manifestData = MarshalBinaryForSigning lib manifest in
      case KeyPair_Sign lib keyPair manifestData of
        Inl e \<Rightarrow> Inl e
      | Inr sig \<Rightarrow> Inr (SetSignature manifest sig (KeyPairKeyID keyPair)))"

definition writeManifest :: "Lib \<Rightarrow> Manifest \<Rightarrow> bytes" where
  "writeManifest lib manifest = json_MarshalIndent_Manifest lib manifest"

record Client =
  publicKey :: bytes
  cdnBaseURL :: string

definition wrap :: "string \<Rightarrow> error \<Rightarrow> error" where
  "wrap msg e = (case e of Err inner \<Rightarrow> Err (msg @ '': '' @ inner))"

definition verifyManifestSignature :: "Lib \<Rightarrow> Client \<Rightarrow> Manifest \<Rightarrow> bytes \<Rightarrow> error option" where
  "verifyManifestSignature lib c manifest data =
     (if length (publicKey c) = 0 then None
      else if length (ManifestSignature manifest) = 0 then Some (Err ''manifest has no signature'')
      else if \<not> Verify lib (publicKey c) data (ManifestSignature manifest)
      then Some (Err ''invalid signature'')
      else if ManifestKeyID manifest \<noteq> []
      then (case PublicKeyToKeyID lib (publicKey c) of
              Inl e \<Rightarrow> Some (wrap ''failed to compute key ID'' e)
            | Inr expectedKeyID \<Rightarrow>
                if expectedKeyID \<noteq> ManifestKeyID manifest then Some (Err ''key ID mismatch'')
                else None)
      else None)"

text \<open>
  \<open>Client.FetchManifest\<close>. The HTTP exchange (building the request, \<open>Do\<close>, the status
  code, the content length, \<open>io.ReadAll\<close>) is the environment's: \<open>response\<close> is its error
  or the body read.
\<close>

definition FetchManifest :: "Lib \<Rightarrow> Client \<Rightarrow> error + bytes \<Rightarrow> error + Manifest" where
  "FetchManifest lib c response =
     (if cdnBaseURL c = [] then Inl (Err ''no CDN base URL configured'')
      else
        (case response of
           Inl e \<Rightarrow> Inl (wrap ''failed to fetch manifest'' e)
         | Inr manifestData \<Rightarrow>
             (case json_Unmarshal_Manifest lib manifestData of
                None \<Rightarrow> Inl (Err ''failed to parse manifest'')
              | Some manifest \<Rightarrow>
                  (case verifyManifestSignature lib c manifest manifestData of
                     Some e \<Rightarrow> Inl (wrap ''manifest signature verification failed'' e)
                   | None \<Rightarrow> Inr manifest))))"

text \<open>\<open>FetchSnapshot\<close> and \<open>FetchDelta\<close>: the check of the URL, then the exchange.\<close>

definition FetchSnapshot :: "(string \<Rightarrow> error + bytes) \<Rightarrow> string \<Rightarrow> error + bytes" where
  "FetchSnapshot response snapshotURL =
     (if snapshotURL = [] then Inl (Err ''empty snapshot URL'') else response snapshotURL)"

definition FetchDelta :: "(string \<Rightarrow> error + bytes) \<Rightarrow> string \<Rightarrow> error + bytes" where
  "FetchDelta response deltaURL =
     (if deltaURL = [] then Inl (Err ''empty delta URL'') else response deltaURL)"

section \<open>pkg/sync: the syncer\<close>

definition LoadSnapshot :: "Lib \<Rightarrow> bytes \<Rightarrow> error + FenceItem list" where
  "LoadSnapshot lib data =
     (case json_Unmarshal_FenceCollection lib data of
        None \<Rightarrow> Inl (Err ''failed to unmarshal snapshot'')
      | Some collection \<Rightarrow> Inr (Items collection))"

definition ReadDelta :: "Lib \<Rightarrow> bytes \<Rightarrow> error + DeltaFile" where
  "ReadDelta lib data =
     (case json_Unmarshal_DeltaFile lib data of
        None \<Rightarrow> Inl (Err ''failed to read delta'')
      | Some delta \<Rightarrow> Inr delta)"

definition PatchFences :: "Lib \<Rightarrow> FenceItem list \<Rightarrow> DeltaFile \<Rightarrow> error + FenceItem list" where
  "PatchFences lib oldFences delta =
     (let oldData = json_Marshal_FenceCollection lib
                      \<lparr>Items = oldFences, CreatedTS = 0, CollectionVersion = []\<rparr>
      in if length (DiffHash delta) > 0 \<and> SHA256 lib (DiffData delta) \<noteq> DiffHash delta
         then Inl (Err ''diff hash mismatch'')
         else
           (case Patch oldData (DiffData delta) of
              Inl e \<Rightarrow> Inl (wrap ''failed to apply patch'' e)
            | Inr newData \<Rightarrow>
                (case json_Unmarshal_FenceCollection lib newData of
                   None \<Rightarrow> Inl (Err ''failed to unmarshal new fences'')
                 | Some collection \<Rightarrow> Inr (Items collection))))"

text \<open>
  What the remote side answers in one run of \<open>Sync\<close>: the body of \<open>manifest.json\<close> and,
  per URL, the snapshot and the delta, each possibly a transport error.
\<close>

record Remote =
  manifest_response :: "error + bytes"
  snapshot_response :: "string \<Rightarrow> error + bytes"
  delta_response :: "string \<Rightarrow> error + bytes"

record Syncer =
  client :: Client
  store :: Store
  currentVer :: "64 word"

record SyncResult =
  UpToDate :: bool
  PreviousVer :: "64 word"
  CurrentVer :: "64 word"
  Error :: "error option"

text \<open>
  The loop of \<open>updateStorage\<close>: \<open>UpdateFence\<close> first and, on any error of it, \<open>AddFence\<close>;
  an error of \<open>AddFence\<close> returns from \<open>updateStorage\<close>.
\<close>

fun updateStorage_loop :: "FenceItem list \<Rightarrow> Store \<Rightarrow> bool list \<Rightarrow> error option \<times> Store \<times> bool list" where
  "updateStorage_loop [] s io = (None, s, io)"
| "updateStorage_loop (f # rest) s io =
     (case UpdateFence f s io of
        (None, s, io) \<Rightarrow> updateStorage_loop rest s io
      | (Some err, s, io) \<Rightarrow>
          (case AddFence f s io of
             (Some err, s, io) \<Rightarrow> (Some (wrap (''failed to add fence '' @ ID f) err), s, io)
           | (None, s, io) \<Rightarrow> updateStorage_loop rest s io))"

definition updateStorage :: "FenceItem list \<Rightarrow> Manifest \<Rightarrow> Store \<Rightarrow> bool list \<Rightarrow> error option \<times> Store \<times> bool list" where
  "updateStorage fenceItems manifest s io =
     (case BeginTx io of
        (Some err, io) \<Rightarrow> (Some err, s, io)
      | (None, io) \<Rightarrow>
     (case updateStorage_loop fenceItems s io of
        (Some err, s, io) \<Rightarrow> (Some err, s, io)
      | (None, s, io) \<Rightarrow>
     (case SetManifest manifest s io of
        (Some err, s, io) \<Rightarrow> (Some (wrap ''failed to store manifest'' err), s, io)
      | (None, s, io) \<Rightarrow>
     (case SetVersion (Version manifest) s io of
        (Some err, s, io) \<Rightarrow> (Some (wrap ''failed to set version'' err), s, io)
      | (None, s, io) \<Rightarrow>
     (case Tx_Commit io of
        (Some err, io) \<Rightarrow> (Some (wrap ''failed to commit transaction'' err), s, io)
      | (None, io) \<Rightarrow> (None, s, io))))))"

definition applySnapshot :: "Lib \<Rightarrow> Remote \<Rightarrow> Manifest \<Rightarrow> Syncer \<Rightarrow> bool list \<Rightarrow> error option \<times> Syncer \<times> bool list" where
  "applySnapshot lib remote manifest s io =
     (case FetchSnapshot (snapshot_response remote) (SnapshotURL manifest) of
        Inl err \<Rightarrow> (Some (wrap ''failed to fetch snapshot'' err), s, io)
      | Inr snapshotData \<Rightarrow>
          if length (SnapshotHash manifest) > 0 \<and> \<not> VerifyHash lib snapshotData (SnapshotHash manifest)
          then (Some (Err ''snapshot hash verification failed''), s, io)
          else
     (case LoadSnapshot lib snapshotData of
        Inl err \<Rightarrow> (Some (wrap ''failed to load snapshot'' err), s, io)
      | Inr fenceItems \<Rightarrow>
          if length (RootHash manifest) > 0 \<and>
             \<not> VerifyHash lib (Tree_RootHash (NewTree lib fenceItems)) (RootHash manifest)
          then (Some (Err ''root hash verification failed''), s, io)
          else
     (case updateStorage fenceItems manifest (store s) io of
        (Some err, st, io) \<Rightarrow> (Some (wrap ''failed to update storage'' err), s\<lparr>store := st\<rparr>, io)
      | (None, st, io) \<Rightarrow> (None, s\<lparr>store := st\<rparr>, io))))"

definition applyDelta :: "Lib \<Rightarrow> Remote \<Rightarrow> Manifest \<Rightarrow> Syncer \<Rightarrow> bool list \<Rightarrow> error option \<times> Syncer \<times> bool list" where
  "applyDelta lib remote manifest s io =
     (case FetchDelta (delta_response remote) (DeltaURL manifest) of
        Inl err \<Rightarrow> (Some (wrap ''failed to fetch delta'' err), s, io)
      | Inr deltaData \<Rightarrow>
          if length (DeltaHash manifest) > 0 \<and> \<not> VerifyHash lib deltaData (DeltaHash manifest)
          then (Some (Err ''delta hash verification failed''), s, io)
          else
     (case ListFences (sqlite_row_order lib) (store s) io of
        (Inl err, io) \<Rightarrow> (Some (wrap ''failed to get current fences'' err), s, io)
      | (Inr oldFences, io) \<Rightarrow>
     (case ReadDelta lib deltaData of
        Inl err \<Rightarrow> (Some (wrap ''failed to parse delta'' err), s, io)
      | Inr delta \<Rightarrow>
          let delta = delta\<lparr>FromVersion := currentVer s, ToVersion := Version manifest\<rparr> in
     (case PatchFences lib oldFences delta of
        Inl err \<Rightarrow> (Some (wrap ''failed to apply patch'' err), s, io)
      | Inr newFences \<Rightarrow>
     (case updateStorage newFences manifest (store s) io of
        (Some err, st, io) \<Rightarrow> (Some (wrap ''failed to update storage'' err), s\<lparr>store := st\<rparr>, io)
      | (None, st, io) \<Rightarrow> (None, s\<lparr>store := st\<rparr>, io))))))"

definition Sync :: "Lib \<Rightarrow> Remote \<Rightarrow> Syncer \<Rightarrow> bool list \<Rightarrow> SyncResult \<times> Syncer \<times> bool list" where
  "Sync lib remote s io =
     (let result = \<lparr>UpToDate = False, PreviousVer = currentVer s, CurrentVer = 0, Error = None\<rparr> in
      case FetchManifest lib (client s) (manifest_response remote) of
        Inl err \<Rightarrow> (result\<lparr>Error := Some (wrap ''failed to fetch manifest'' err)\<rparr>, s, io)
      | Inr manifest \<Rightarrow>
          let result = result\<lparr>CurrentVer := Version manifest\<rparr> in
          if Version manifest \<le> currentVer s then (result\<lparr>UpToDate := True\<rparr>, s, io)
          else
            let useDelta = (Version manifest - currentVer s = 1 \<and> DeltaURL manifest \<noteq> []) in
            (case (if useDelta then applyDelta lib remote manifest s io
                   else applySnapshot lib remote manifest s io) of
               (Some err, s, io) \<Rightarrow>
                 (result\<lparr>Error := Some (wrap ''failed to apply update'' err)\<rparr>, s, io)
             | (None, s, io) \<Rightarrow> (result, s\<lparr>currentVer := Version manifest\<rparr>, io)))"

section \<open>Check: Syncer.Check and Manager.QueryAtPoint\<close>

text \<open>
  Both functions scan the rows the store returned with
  \<open>for i := 1; i < len(results); i++\<close>, replacing \<open>highestPriority\<close> only by a row of
  strictly greater priority, and then switch on its type. On a failed query the source
  returns \<open>(false, nil, err)\<close>, here \<open>Inl err\<close>. The rows come in descending priority,
  those of equal priority in the order the engine returns them.
\<close>

fun highestPriority_loop :: "FenceItem list \<Rightarrow> FenceItem \<Rightarrow> FenceItem" where
  "highestPriority_loop [] highestPriority = highestPriority"
| "highestPriority_loop (r # rest) highestPriority =
     highestPriority_loop rest (if Priority r > Priority highestPriority then r else highestPriority)"

definition Check_results :: "FenceItem list \<Rightarrow> bool \<times> FenceItem option" where
  "Check_results results =
     (case results of
        [] \<Rightarrow> (True, None)
      | r0 # rest \<Rightarrow>
          let highestPriority = highestPriority_loop rest r0 in
          if Type highestPriority = FenceTypePermanentNoFly \<or>
             Type highestPriority = FenceTypeTempRestriction
          then (False, Some highestPriority)
          else (True, Some highestPriority))"

definition Syncer_Check ::
  "Lib \<Rightarrow> int \<Rightarrow> Syncer \<Rightarrow> real \<Rightarrow> real \<Rightarrow> bool list
     \<Rightarrow> (error + bool \<times> FenceItem option) \<times> bool list" where
  "Syncer_Check lib now s lat lon io =
     (case QueryAtPoint (sqlite_row_order lib) now (store s) lat lon io of
        (Inl err, io) \<Rightarrow> (Inl (wrap ''query failed'' err), io)
      | (Inr results, io) \<Rightarrow> (Inr (Check_results results), io))"

definition Manager_results :: "FenceItem list \<Rightarrow> bool \<times> FenceItem option" where
  "Manager_results results =
     (case results of
        [] \<Rightarrow> (True, None)
      | r0 # rest \<Rightarrow>
          let highestPriority = highestPriority_loop rest r0 in
          if Type highestPriority = FenceTypePermanentNoFly \<or>
             Type highestPriority = FenceTypeTempRestriction
          then (False, Some highestPriority)
          else if Type highestPriority = FenceTypeAltitudeLimit then (True, Some highestPriority)
          else if Type highestPriority = FenceTypeSpeedLimit then (True, Some highestPriority)
          else (True, None))"

definition Manager_QueryAtPoint ::
  "Lib \<Rightarrow> int \<Rightarrow> Store \<Rightarrow> real \<Rightarrow> real \<Rightarrow> bool list
     \<Rightarrow> (error + bool \<times> FenceItem option) \<times> bool list" where
  "Manager_QueryAtPoint lib now st lat lon io =
     (case QueryAtPoint (sqlite_row_order lib) now st lat lon io of
        (Inl err, io) \<Rightarrow> (Inl (wrap ''query failed'' err), io)
      | (Inr results, io) \<Rightarrow> (Inr (Manager_results results), io))"

definition prohibitive :: "FenceItem \<Rightarrow> bool" where
  "prohibitive f = (Type f = FenceTypeTempRestriction \<or> Type f = FenceTypePermanentNoFly)"

text \<open>
  \<open>selected rs i\<close>: the row at index \<open>i\<close> has the greatest priority of \<open>rs\<close> and is the
  first row to have it.
\<close>

definition selected :: "FenceItem list \<Rightarrow> nat \<Rightarrow> bool" where
  "selected rs i =
     (i < length rs \<and> list_all (\<lambda>f. Priority f \<le> Priority (rs ! i)) rs \<and>
      list_all (\<lambda>f. Priority f < Priority (rs ! i)) (take i rs))"

section \<open>Concrete inputs\<close>

text \<open>
  Two fences over the same box, of equal priority, one prohibitive and one advisory, and
  the store that holds both.
\<close>

definition box10 :: Geometry where
  "box10 = \<lparr>Polygon = [], CircleCenter = None, CircleRadius = 0,
            BBox = Some \<lparr>MinLat = 0, MinLon = 0, MaxLat = 10, MaxLon = 10\<rparr>\<rparr>"

definition fence_a :: FenceItem where
  "fence_a = \<lparr>ID = ''a'', Type = FenceTypePermanentNoFly, Geometry = box10,
     StartTS = 0, EndTS = 0, Priority = 5, MaxAltitude = 0, MaxSpeed = 0,
     Name = [], Description = [], Signature = [], KeyID = []\<rparr>"

definition fence_b :: FenceItem where
  "fence_b = \<lparr>ID = ''b'', Type = FenceTypeAltitudeLimit, Geometry = box10,
     StartTS = 0, EndTS = 0, Priority = 5, MaxAltitude = 120, MaxSpeed = 0,
     Name = [], Description = [], Signature = [], KeyID = []\<rparr>"

definition store_ab :: Store where
  "store_ab = fst (run_mutations [MAddFence fence_a, MAddFence fence_b] empty_store [])"

definition client0 :: Client where
  "client0 = \<lparr>publicKey = [], cdnBaseURL = ''https://cdn.example/manifest.json''\<rparr>"

text \<open>
  An instance of the library record, small enough to evaluate: a digest that is never
  empty and has no fixed point, a signature scheme in which a signature is valid for the
  message it was made for only, decoders that return the values named here, and an
  engine that returns rows of equal priority in the order of their rowids.
\<close>

definition example_SHA256 :: "bytes \<Rightarrow> bytes" where
  "example_SHA256 x = (if take 1 x = [0] then [1] else [0])"

definition manifest_v1 :: Manifest where
  "manifest_v1 = \<lparr>Version = 1, Timestamp = 0, RootHash = [], DeltaURL = [],
     SnapshotURL = ''/snapshots/v1.bin'', DeltaSize = 0, SnapshotSize = 0, DeltaHash = [],
     SnapshotHash = [], MinClientV = 0, Message = [], ManifestSignature = [],
     ManifestKeyID = []\<rparr>"

definition signed_v1 :: Manifest where
  "signed_v1 = manifest_v1\<lparr>ManifestSignature := [0], ManifestKeyID := ''k''\<rparr>"

definition example_lib :: Lib where
  "example_lib =
     \<lparr>SHA256 = example_SHA256,
      ed25519_Sign = (\<lambda>privateKey message. message),
      ed25519_Verify = (\<lambda>publicKey message signature. signature = message),
      json_Marshal_FenceItem = (\<lambda>f. []),
      json_Unmarshal_FenceItem = (\<lambda>d. Some fence_a),
      json_Marshal_FenceCollection = (\<lambda>c. []),
      json_Unmarshal_FenceCollection =
        (\<lambda>d. Some \<lparr>Items = [fence_b], CreatedTS = 0, CollectionVersion = []\<rparr>),
      json_Unmarshal_DeltaFile = (\<lambda>d. None),
      json_Marshal_Manifest = (\<lambda>m. if ManifestSignature m = [] then [0] else [1]),
      json_MarshalIndent_Manifest = (\<lambda>m. if ManifestSignature m = [] then [2] else [3]),
      json_Unmarshal_Manifest =
        (\<lambda>d. if d = [0] \<or> d = [2] then Some manifest_v1
             else if d = [3] then Some signed_v1 else None),
      sqlite_row_order = (\<lambda>rows. rows)\<rparr>"

definition example_keyPair :: KeyPair where
  "example_keyPair = \<lparr>PublicKey = [7], PrivateKey = [7], KeyPairKeyID = ''k''\<rparr>"

definition client_with_key :: Client where
  "client_with_key = \<lparr>publicKey = [7], cdnBaseURL = ''https://cdn.example/manifest.json''\<rparr>"

text \<open>
  A store holding fence \<open>a\<close> only, and a remote that serves \<open>manifest.json\<close> and the
  snapshot and has no delta. The other stores are results of runs stated below. The two
  lists make the 10th, respectively the 12th, call into the database fail.
\<close>

definition store_a :: Store where
  "store_a = fst (run_mutations [MAddFence fence_a] empty_store [])"

definition remote_v1 :: Remote where
  "remote_v1 = \<lparr>manifest_response = Inr [2],
                 snapshot_response = (\<lambda>url. Inr [1, 2, 3]),
                 delta_response = (\<lambda>url. Inl (Err ''unexpected status code for delta: 404''))\<rparr>"

definition store_ab_v1 :: Store where
  "store_ab_v1 = \<lparr>fences = [(1, fence_a), (2, fence_b)],
                fence_index = [(1, \<lparr>MinLat = 0, MinLon = 0, MaxLat = 10, MaxLon = 10\<rparr>),
                               (2, \<lparr>MinLat = 0, MinLon = 0, MaxLat = 10, MaxLon = 10\<rparr>)],
                metadata_manifest = Some manifest_v1, metadata_version = Some 1,
                sqlite_sequence = 2\<rparr>"

definition store_b :: Store where
  "store_b = \<lparr>fences = [(1, fence_b)],
                fence_index = [(1, \<lparr>MinLat = 0, MinLon = 0, MaxLat = 10, MaxLon = 10\<rparr>)],
                metadata_manifest = None, metadata_version = None, sqlite_sequence = 1\<rparr>"

definition fail_10th :: "bool list" where
  "fail_10th = [False, False, False, False, False, False, False, False, False, True]"

definition fail_12th :: "bool list" where
  "fail_12th = [False, False, False, False, False, False, False, False, False, False, False, True]"

text \<open>
  A permanent no-fly circle of radius 1000 m around 89 degrees north, and a
  minimum-altitude fence over the box; each is the only fence of its store.
\<close>

definition circle89 :: Geometry where
  "circle89 = \<lparr>Polygon = [], CircleCenter = Some \<lparr>Latitude = 89, Longitude = 0\<rparr>,
               CircleRadius = 1000, BBox = None\<rparr>"

definition fence_c :: FenceItem where
  "fence_c = \<lparr>ID = ''c'', Type = FenceTypePermanentNoFly, Geometry = circle89,
     StartTS = 0, EndTS = 0, Priority = 5, MaxAltitude = 0, MaxSpeed = 0,
     Name = [], Description = [], Signature = [], KeyID = []\<rparr>"

definition fence_m :: FenceItem where
  "fence_m = \<lparr>ID = ''m'', Type = FenceTypeAltitudeMinimum, Geometry = box10,
     StartTS = 0, EndTS = 0, Priority = 5, MaxAltitude = 0, MaxSpeed = 0,
     Name = [], Description = [], Signature = [], KeyID = []\<rparr>"

definition store_c :: Store where
  "store_c = fst (run_mutations [MAddFence fence_c] empty_store [])"

definition store_m :: Store where
  "store_m = fst (run_mutations [MAddFence fence_m] empty_store [])"

section \<open>Theorems\<close>

subsection \<open>Binary diff\<close>

lemma uint32_le_put: "uint32_le (put_uint32_le w) = w"
proof (rule bit_word_eqI)
  fix n assume n: "n < LENGTH(32)"
  consider "n < 8" | "8 \<le> n" "n < 16" | "16 \<le> n" "n < 24" | "24 \<le> n" by linarith
  then show "bit (uint32_le (put_uint32_le w)) n = bit w n"
  proof cases
    case 1 then show ?thesis using n
      by (auto simp add: uint32_le_def put_uint32_le_def bit_simps)
  next
    case 2
    then have "8 + (n - 8) = n" by simp
    with 2 show ?thesis using n
      by (auto simp add: uint32_le_def put_uint32_le_def bit_simps)
  next
    case 3
    then have "16 + (n - 16) = n" by simp
    with 3 show ?thesis using n
      by (auto simp add: uint32_le_def put_uint32_le_def bit_simps)
  next
    case 4
    then have "24 + (n - 24) = n" by simp
    with 4 show ?thesis using n
      by (auto simp add: uint32_le_def put_uint32_le_def bit_simps)
  qed
qed

lemma length_put_uint32_le: "length (put_uint32_le w) = 4"
  by (simp add: put_uint32_le_def)

lemma uint32_le_cong: "take 4 xs = take 4 ys \<Longrightarrow> length xs \<ge> 4 \<Longrightarrow> length ys \<ge> 4 \<Longrightarrow> uint32_le xs = uint32_le ys"
proof -
  assume a: "take 4 xs = take 4 ys" "length xs \<ge> 4" "length ys \<ge> 4"
  have "\<And>i. i < 4 \<Longrightarrow> xs ! i = ys ! i"
    using a by (metis nth_take)
  then show ?thesis by (simp add: uint32_le_def)
qed

lemma uint32_le_take4: "uint32_le (take 4 (put_uint32_le w @ xs)) = w"
  using uint32_le_put [of w] by (simp add: length_put_uint32_le)

lemma commonPrefixLen_loop_le:
  "i \<le> maxLen \<Longrightarrow> commonPrefixLen_loop a b maxLen i \<le> maxLen"
proof (induction a b maxLen i rule: commonPrefixLen_loop.induct)
  case (1 a b maxLen i)
  then show ?case
    by (subst commonPrefixLen_loop.simps) auto
qed

lemma commonPrefixLen_loop_agree:
  "\<forall>j<i. a ! j = b ! j \<Longrightarrow> i \<le> maxLen \<Longrightarrow> j < commonPrefixLen_loop a b maxLen i \<Longrightarrow> a ! j = b ! j"
proof (induction a b maxLen i rule: commonPrefixLen_loop.induct)
  case (1 a b maxLen i)
  show ?case
  proof (cases "i < maxLen \<and> a ! i = b ! i")
    case True
    then have e: "commonPrefixLen_loop a b maxLen i = commonPrefixLen_loop a b maxLen (Suc i)"
      by (subst commonPrefixLen_loop.simps) simp
    have "\<forall>j<Suc i. a ! j = b ! j" using "1.prems"(1) True by (auto simp: less_Suc_eq)
    with "1.IH" True e "1.prems"(3) show ?thesis by simp
  next
    case False
    then have "commonPrefixLen_loop a b maxLen i = i"
      using "1.prems"(2) by (subst commonPrefixLen_loop.simps) auto
    then show ?thesis using "1.prems" by simp
  qed
qed

lemma commonPrefixLen_le: "commonPrefixLen a b \<le> length a" "commonPrefixLen a b \<le> length b"
  using commonPrefixLen_loop_le [of 0 "length a" a b] commonPrefixLen_loop_le [of 0 "length b" a b]
  by (auto simp: commonPrefixLen_def Let_def)

lemma commonPrefixLen_take: "take (commonPrefixLen a b) a = take (commonPrefixLen a b) b"
proof (rule nth_equalityI)
  show "length (take (commonPrefixLen a b) a) = length (take (commonPrefixLen a b) b)"
    using commonPrefixLen_le [of a b] by simp
next
  fix j assume "j < length (take (commonPrefixLen a b) a)"
  then have j: "j < commonPrefixLen a b" by simp
  then have "a ! j = b ! j"
    using commonPrefixLen_loop_agree [of 0 a b _ j]
    by (auto simp: commonPrefixLen_def Let_def split: if_splits)
  with j show "take (commonPrefixLen a b) a ! j = take (commonPrefixLen a b) b ! j" by simp
qed

lemma commonSuffixLen_loop_le:
  "i \<le> maxLen \<Longrightarrow> commonSuffixLen_loop a b maxLen i \<le> maxLen"
proof (induction a b maxLen i rule: commonSuffixLen_loop.induct)
  case (1 a b maxLen i)
  then show ?case
    by (subst commonSuffixLen_loop.simps) (auto simp: Let_def)
qed

lemma commonSuffixLen_loop_agree:
  "\<forall>j<i. a ! (length a - 1 - j) = b ! (length b - 1 - j) \<Longrightarrow> i \<le> maxLen \<Longrightarrow>
   maxLen \<le> length a \<Longrightarrow> maxLen \<le> length b \<Longrightarrow>
   j < commonSuffixLen_loop a b maxLen i \<Longrightarrow> a ! (length a - 1 - j) = b ! (length b - 1 - j)"
proof (induction a b maxLen i rule: commonSuffixLen_loop.induct)
  case (1 a b maxLen i)
  let ?ai = "int (length a) - 1 - int i" and ?bi = "int (length b) - 1 - int i"
  show ?case
  proof (cases "i < maxLen \<and> \<not> (?ai < 0 \<or> ?bi < 0 \<or> a ! nat ?ai \<noteq> b ! nat ?bi)")
    case True
    then have e: "commonSuffixLen_loop a b maxLen i = commonSuffixLen_loop a b maxLen (Suc i)"
      by (subst commonSuffixLen_loop.simps) (simp add: Let_def)
    have n: "nat ?ai = length a - 1 - i" "nat ?bi = length b - 1 - i" by linarith+
    have "\<forall>j<Suc i. a ! (length a - 1 - j) = b ! (length b - 1 - j)"
      using "1.prems"(1) True n by (auto simp: less_Suc_eq)
    with "1.IH" [OF _ refl refl] True e "1.prems" show ?thesis by simp
  next
    case False
    then have "commonSuffixLen_loop a b maxLen i = i"
      using "1.prems"(2) by (subst commonSuffixLen_loop.simps) (auto simp: Let_def)
    then show ?thesis using "1.prems" by simp
  qed
qed

lemma commonSuffixLen_le: "commonSuffixLen a b \<le> length a" "commonSuffixLen a b \<le> length b"
  using commonSuffixLen_loop_le [of 0 "length a" a b] commonSuffixLen_loop_le [of 0 "length b" a b]
  by (auto simp: commonSuffixLen_def Let_def)

lemma commonSuffixLen_drop:
  "drop (length a - commonSuffixLen a b) a = drop (length b - commonSuffixLen a b) b"
proof (rule nth_equalityI)
  show "length (drop (length a - commonSuffixLen a b) a) = length (drop (length b - commonSuffixLen a b) b)"
    using commonSuffixLen_le [of a b] by simp
next
  fix k assume "k < length (drop (length a - commonSuffixLen a b) a)"
  then have k: "k < commonSuffixLen a b" using commonSuffixLen_le [of a b] by simp
  let ?S = "commonSuffixLen a b"
  let ?j = "?S - 1 - k"
  have j: "?j < ?S" using k by simp
  have "a ! (length a - 1 - ?j) = b ! (length b - 1 - ?j)"
    using commonSuffixLen_loop_agree [of 0 a b _ ?j] j
    by (auto simp: commonSuffixLen_def Let_def split: if_splits)
  moreover have "length a - 1 - ?j = length a - ?S + k" "length b - 1 - ?j = length b - ?S + k"
    using k commonSuffixLen_le [of a b] by simp_all
  ultimately show "drop (length a - ?S) a ! k = drop (length b - ?S) b ! k"
    using commonSuffixLen_le [of a b] by simp
qed

lemma Patch_raw: "reads_as_raw oldData diffData \<Longrightarrow> Patch oldData diffData = Inr diffData"
  by (auto simp: reads_as_raw_def Patch_def Let_def)

lemma computeDiff_verbatim: "emits_verbatim a b \<Longrightarrow> computeDiff a b = b"
  by (auto simp: emits_verbatim_def computeDiff_def)

lemma unat_of_nat32: "n \<le> maxPatchLen \<Longrightarrow> unat (of_nat n :: 32 word) = n"
  by (simp add: maxPatchLen_def unat_of_nat)

lemma of_nat32_le: "m \<le> n \<Longrightarrow> n \<le> maxPatchLen \<Longrightarrow> (of_nat m :: 32 word) \<le> of_nat n"
  by (simp add: word_le_nat_alt unat_of_nat32)

lemma Patch_apply:
  assumes "\<not> length d < 8"
    and "uint32_le (take 4 d) = p" and "uint32_le (take 4 (drop 4 d)) = s"
    and "\<not> p > of_nat (length a)" and "\<not> s > of_nat (length a)"
    and "\<not> maxPatchLen < unat p + length (drop 8 d) + unat s"
  shows "Patch a d =
     (if s > 0 \<and> unat p + unat s \<le> length a
      then Inr (take (unat p) a @ drop 8 d @ drop (length a - unat s) a)
      else Inr (take (unat p) a @ drop 8 d))"
  using assms by (simp add: Patch_def Let_def)

lemma Patch_structured:
  assumes ab: "length a \<le> length b" and bm: "length b \<le> maxPatchLen"
  defines "P \<equiv> commonPrefixLen a b"
  defines "S \<equiv> commonSuffixLen (drop P a) (drop P b)"
  shows "Patch a (put_uint32_le (of_nat P) @ put_uint32_le (of_nat S)
            @ take (length b - S - P) (drop P b)) = Inr b"
proof -
  let ?mid = "take (length b - S - P) (drop P b)"
  let ?d = "put_uint32_le (of_nat P) @ put_uint32_le (of_nat S) @ ?mid"
  have Pa: "P \<le> length a" and Pb: "P \<le> length b"
    unfolding P_def by (rule commonPrefixLen_le)+
  have Sa: "S \<le> length a - P" and Sb: "S \<le> length b - P"
    using commonSuffixLen_le [of "drop P a" "drop P b"] unfolding S_def by simp_all
  have hP: "uint32_le (take 4 ?d) = of_nat P"
    by (rule uint32_le_take4)
  have d4: "drop 4 ?d = put_uint32_le (of_nat S) @ ?mid"
    by (simp add: length_put_uint32_le)
  have hS: "uint32_le (take 4 (drop 4 ?d)) = of_nat S"
    by (simp only: d4 uint32_le_take4)
  have d8: "drop 8 ?d = ?mid"
    by (simp add: length_put_uint32_le)
  have len: "\<not> length ?d < 8"
    by (simp add: length_put_uint32_le)
  have uP: "unat (of_nat P :: 32 word) = P" and uS: "unat (of_nat S :: 32 word) = S"
    using Pb Sb bm by (simp_all add: unat_of_nat32)
  have vP: "\<not> (of_nat P :: 32 word) > of_nat (length a)"
    using of_nat32_le [of P "length a"] Pa ab bm by (simp add: not_less)
  have vS: "\<not> (of_nat S :: 32 word) > of_nat (length a)"
    using of_nat32_le [of S "length a"] Sa ab bm by (simp add: not_less)
  have lm: "length ?mid = length b - S - P" using Sb by simp
  have tot: "\<not> maxPatchLen < unat (of_nat P :: 32 word) + length (drop 8 ?d) + unat (of_nat S :: 32 word)"
    unfolding uP uS d8 lm using Sb Pb bm by simp
  have S0: "((of_nat S :: 32 word) > 0) = (S > 0)"
    using uS by (metis unat_gt_0 word_neq_0_conv)
  have fit: "P + S \<le> length a" using Sa Pa by simp
  have pre: "take P a = take P b"
    unfolding P_def by (rule commonPrefixLen_take)
  have suf: "drop (length a - S) a = drop (length b - S) b"
  proof -
    have "drop (length (drop P a) - S) (drop P a) = drop (length (drop P b) - S) (drop P b)"
      unfolding S_def by (rule commonSuffixLen_drop)
    moreover have "length (drop P a) - S + P = length a - S" "length (drop P b) - S + P = length b - S"
      using Sa Sb Pa Pb by simp_all
    ultimately show ?thesis by simp
  qed
  have split3: "take P b @ ?mid @ drop (length b - S) b = b"
  proof -
    have "?mid @ drop (length b - S) b = drop P b"
    proof -
      have "drop (length b - S) b = drop (length b - S - P) (drop P b)"
        using Sb Pb by simp
      then show ?thesis by (simp only: append_take_drop_id)
    qed
    then show ?thesis by simp
  qed
  have res: "Patch a ?d =
      (if S > 0 then Inr (take P a @ ?mid @ drop (length a - S) a) else Inr (take P a @ ?mid))"
    unfolding Patch_apply [OF len hP hS vP vS tot] uP uS d8 S0
    using fit by simp
  show ?thesis
  proof (cases "S > 0")
    case True
    then show ?thesis using res pre suf split3 by simp
  next
    case False
    then have "?mid = drop P b" by simp
    then show ?thesis using res pre False by simp
  qed
qed

text \<open>
  Claim C3, as amended. \<open>Patch(a, computeDiff(a, b))\<close> returns \<open>b\<close> in two cases. When
  \<open>computeDiff\<close> emits the prefix/suffix form (\<open>b\<close> is not shorter than \<open>a\<close> and does not
  exceed it by more than half its length), it does so provided \<open>b\<close> has at most 10 MiB.
  When \<open>computeDiff\<close> emits \<open>b\<close> verbatim, it does so provided \<open>Patch\<close> reads \<open>b\<close> as raw
  data: \<open>b\<close> has fewer than 8 bytes, or one of its two leading little-endian 32-bit words
  exceeds \<open>uint32(len(a))\<close>, or the length these words describe exceeds 10 MiB. The format
  carries no tag, so a verbatim \<open>b\<close> whose first 8 bytes decode to two lengths within \<open>a\<close>
  is patched as if it were a prefix/suffix delta.
\<close>

theorem Patch_computeDiff:
  assumes "if emits_verbatim a b then reads_as_raw a b else length b \<le> maxPatchLen"
  shows "Patch a (computeDiff a b) = Inr b"
proof (cases "emits_verbatim a b")
  case True
  then show ?thesis using assms by (simp add: computeDiff_verbatim Patch_raw)
next
  case False
  then have ab: "length a \<le> length b" and bm: "length b \<le> maxPatchLen"
    using assms by (auto simp: emits_verbatim_def)
  have "computeDiff a b =
     put_uint32_le (of_nat (commonPrefixLen a b))
       @ put_uint32_le (of_nat (commonSuffixLen (drop (commonPrefixLen a b) a) (drop (commonPrefixLen a b) b)))
       @ take (length b - commonSuffixLen (drop (commonPrefixLen a b) a) (drop (commonPrefixLen a b) b) - commonPrefixLen a b)
           (drop (commonPrefixLen a b) b)"
    using False by (simp add: computeDiff_def emits_verbatim_def Let_def)
  then show ?thesis using Patch_structured [OF ab bm] by simp
qed

text \<open>
  The claim as stated fails: \<open>a\<close> is nine zero bytes and \<open>b\<close> eight zero bytes. \<open>b\<close> is
  shorter, so the diff is \<open>b\<close> itself; its header decodes to prefix 0 and suffix 0, both
  within \<open>a\<close>, and \<open>Patch\<close> returns the empty middle part instead of \<open>b\<close>.
\<close>

theorem Patch_computeDiff_counterexample:
  "Patch [0, 0, 0, 0, 0, 0, 0, 0, 0] (computeDiff [0, 0, 0, 0, 0, 0, 0, 0, 0] [0, 0, 0, 0, 0, 0, 0, 0])
     \<noteq> Inr [0, 0, 0, 0, 0, 0, 0, 0]"
  by (simp add: computeDiff_def Patch_def uint32_le_def maxPatchLen_def)

theorem Patch_computeDiff_witness:
  "(if emits_verbatim [1, 2, 3, 4] [1, 2, 9, 4, 5] then reads_as_raw [1, 2, 3, 4] [1, 2, 9, 4, 5]
    else length [1, 2, 9, 4, 5 :: byte] \<le> maxPatchLen)
   \<and> Patch [1, 2, 3, 4] (computeDiff [1, 2, 3, 4] [1, 2, 9, 4, 5]) = Inr [1, 2, 9, 4, 5]"
proof -
  have h: "if emits_verbatim [1, 2, 3, 4] [1, 2, 9, 4, 5] then reads_as_raw [1, 2, 3, 4] [1, 2, 9, 4, 5]
    else length [1, 2, 9, 4, 5 :: byte] \<le> maxPatchLen"
    by (simp add: emits_verbatim_def exceeds_threshold_def maxPatchLen_def)
  from Patch_computeDiff [OF h] h show ?thesis by simp
qed

text \<open>
  Claim C9, as amended. For every old byte sequence and every delta of at least 8 bytes
  whose reconstructed length (prefix + middle + suffix) exceeds the 10 MiB ceiling,
  \<open>Patch\<close> does not reconstruct anything and reports no error: it returns the delta bytes
  themselves with a \<open>nil\<close> error. \<open>Patch\<close> has no error return at all.
\<close>

theorem Patch_too_large:
  assumes "8 \<le> length diffData"
    and "maxPatchLen < unat (uint32_le (take 4 diffData)) + length (drop 8 diffData)
            + unat (uint32_le (take 4 (drop 4 diffData)))"
  shows "Patch oldData diffData = Inr diffData"
  using assms by (auto simp: Patch_def Let_def)

text \<open>
  The claim as stated fails: the old data has 10485761 bytes and the delta is the 8-byte
  header with prefix length 10485761 and suffix length 0. The reconstructed length is one
  byte above the ceiling; the call returns the 8 header bytes, not an error.
\<close>

theorem Patch_too_large_counterexample:
  "Patch (replicate 10485761 0) [1, 0, 160, 0, 0, 0, 0, 0] = Inr [1, 0, 160, 0, 0, 0, 0, 0]"
  by (simp add: Patch_def uint32_le_def maxPatchLen_def)

theorem Patch_too_large_witness:
  "8 \<le> length [1, 0, 160, 0, 0, 0, 0, 0 :: byte] \<and>
   maxPatchLen < unat (uint32_le (take 4 [1, 0, 160, 0, 0, 0, 0, 0]))
       + length (drop 8 [1, 0, 160, 0, 0, 0, 0, 0 :: byte])
       + unat (uint32_le (take 4 (drop 4 [1, 0, 160, 0, 0, 0, 0, 0]))) \<and>
   Patch [] [1, 0, 160, 0, 0, 0, 0, 0] = Inr [1, 0, 160, 0, 0, 0, 0, 0]"
proof -
  have h1: "8 \<le> length [1, 0, 160, 0, 0, 0, 0, 0 :: byte]" by simp
  have h2: "maxPatchLen < unat (uint32_le (take 4 [1, 0, 160, 0, 0, 0, 0, 0]))
       + length (drop 8 [1, 0, 160, 0, 0, 0, 0, 0 :: byte])
       + unat (uint32_le (take 4 (drop 4 [1, 0, 160, 0, 0, 0, 0, 0])))"
    by (simp add: uint32_le_def maxPatchLen_def)
  from Patch_too_large [OF h1 h2, of "[]"] h1 h2 show ?thesis by simp
qed

subsection \<open>Structured deltas\<close>

lemma fenceMap_of_Nil: "fenceMap_of [] = Map.empty"
  by (simp add: fenceMap_of_def)

lemma fenceMap_of_Cons: "m ++ fenceMap_of (f # fs) = m(ID f \<mapsto> f) ++ fenceMap_of fs"
  by (simp add: fenceMap_of_def map_add_upd_left fun_eq_iff map_add_def split: option.splits)

lemma load_map_of: "map_of (ApplyDelta_load fs m) = map_of m ++ fenceMap_of fs"
proof (induction fs arbitrary: m)
  case Nil
  then show ?case by (simp add: fenceMap_of_Nil)
next
  case (Cons f fs)
  have "map_of (ApplyDelta_load (f # fs) m) = map_of (AList.update (ID f) f m) ++ fenceMap_of fs"
    using Cons.IH by simp
  also have "\<dots> = (map_of m)(ID f \<mapsto> f) ++ fenceMap_of fs"
    by (simp only: update_conv')
  also have "\<dots> = map_of m ++ fenceMap_of (f # fs)"
    by (simp only: fenceMap_of_Cons)
  finally show ?case .
qed

lemma load_distinct: "distinct (map fst m) \<Longrightarrow> distinct (map fst (ApplyDelta_load fs m))"
  by (induction fs arbitrary: m) (simp_all add: distinct_update)

lemma remove_map_of: "map_of (ApplyDelta_remove is m) = map_of m |` (- set is)"
proof (induction "is" arbitrary: m)
  case Nil
  then show ?case by simp
next
  case (Cons i "is")
  have "map_of (AList.delete i m) |` (- set is) = map_of m |` (- set (i # is))"
    by (auto simp: fun_eq_iff restrict_map_def delete_conv')
  with Cons show ?case by simp
qed

lemma remove_distinct: "distinct (map fst m) \<Longrightarrow> distinct (map fst (ApplyDelta_remove is m))"
  by (induction "is" arbitrary: m) (simp_all add: distinct_delete)

lemma map_of_None_keys: "(map_of m k = None) = (k \<notin> fst ` set m)"
  by (simp add: map_of_eq_None_iff)

lemma add_isl:
  "isl (ApplyDelta_add fs m) = ((\<exists>f\<in>set fs. ID f \<in> fst ` set m) \<or> \<not> distinct (map ID fs))"
proof (induction fs arbitrary: m)
  case Nil
  then show ?case by simp
next
  case (Cons f fs)
  show ?case
  proof (cases "ID f \<in> fst ` set m")
    case True
    then show ?thesis by (simp add: map_of_None_keys)
  next
    case False
    then have "isl (ApplyDelta_add (f # fs) m) = isl (ApplyDelta_add fs (AList.update (ID f) f m))"
      by (simp add: map_of_None_keys)
    also have "\<dots> = ((\<exists>g\<in>set fs. ID g \<in> insert (ID f) (fst ` set m)) \<or> \<not> distinct (map ID fs))"
      by (simp only: Cons.IH dom_update insert_is_Un [symmetric])
    also have "\<dots> = ((\<exists>g\<in>set (f # fs). ID g \<in> fst ` set m) \<or> \<not> distinct (map ID (f # fs)))"
      using False by (auto simp: image_iff) metis
    finally show ?thesis .
  qed
qed

lemma add_map_of:
  "ApplyDelta_add fs m = Inr m' \<Longrightarrow> map_of m' = map_of m ++ fenceMap_of fs"
proof (induction fs arbitrary: m)
  case Nil
  then show ?case by (simp add: fenceMap_of_Nil)
next
  case (Cons f fs)
  from Cons.prems have r: "ApplyDelta_add fs (AList.update (ID f) f m) = Inr m'"
    by (simp split: if_splits)
  have "map_of m' = map_of (AList.update (ID f) f m) ++ fenceMap_of fs"
    using Cons.IH [OF r] .
  also have "\<dots> = (map_of m)(ID f \<mapsto> f) ++ fenceMap_of fs"
    by (simp only: update_conv')
  also have "\<dots> = map_of m ++ fenceMap_of (f # fs)"
    by (simp only: fenceMap_of_Cons)
  finally show ?case .
qed

lemma add_distinct:
  "ApplyDelta_add fs m = Inr m' \<Longrightarrow> distinct (map fst m) \<Longrightarrow> distinct (map fst m')"
  by (induction fs arbitrary: m) (auto simp: distinct_update split: if_splits)

lemma update_isl:
  "isl (ApplyDelta_update fs m) = (\<exists>f\<in>set fs. ID f \<notin> fst ` set m)"
proof (induction fs arbitrary: m)
  case Nil
  then show ?case by simp
next
  case (Cons f fs)
  show ?case
  proof (cases "ID f \<in> fst ` set m")
    case False
    then show ?thesis by (simp add: map_of_None_keys)
  next
    case True
    then have k: "insert (ID f) (fst ` set m) = fst ` set m" by auto
    from True have "isl (ApplyDelta_update (f # fs) m) = isl (ApplyDelta_update fs (AList.update (ID f) f m))"
      by (simp add: map_of_None_keys)
    also have "\<dots> = (\<exists>g\<in>set fs. ID g \<notin> insert (ID f) (fst ` set m))"
      by (simp only: Cons.IH dom_update insert_is_Un [symmetric])
    also have "\<dots> = (\<exists>g\<in>set (f # fs). ID g \<notin> fst ` set m)"
      using True k by simp
    finally show ?thesis .
  qed
qed

lemma update_map_of:
  "ApplyDelta_update fs m = Inr m' \<Longrightarrow> map_of m' = map_of m ++ fenceMap_of fs"
proof (induction fs arbitrary: m)
  case Nil
  then show ?case by (simp add: fenceMap_of_Nil)
next
  case (Cons f fs)
  from Cons.prems have r: "ApplyDelta_update fs (AList.update (ID f) f m) = Inr m'"
    by (simp split: if_splits)
  have "map_of m' = map_of (AList.update (ID f) f m) ++ fenceMap_of fs"
    using Cons.IH [OF r] .
  also have "\<dots> = (map_of m)(ID f \<mapsto> f) ++ fenceMap_of fs"
    by (simp only: update_conv')
  also have "\<dots> = map_of m ++ fenceMap_of (f # fs)"
    by (simp only: fenceMap_of_Cons)
  finally show ?case .
qed

lemma update_distinct:
  "ApplyDelta_update fs m = Inr m' \<Longrightarrow> distinct (map fst m) \<Longrightarrow> distinct (map fst m')"
  by (induction fs arbitrary: m) (auto simp: distinct_update split: if_splits)

lemma dom_fenceMap_of: "dom (fenceMap_of fs) = set (map ID fs)"
  by (auto simp: fenceMap_of_def dom_map_of_conv_image_fst image_iff)

lemma keys_dom: "fst ` set m = dom (map_of m)"
  by (simp add: dom_map_of_conv_image_fst)

lemma list_all_update:
  "list_all (\<lambda>(k, v). k = ID v) m \<Longrightarrow> list_all (\<lambda>(k, v). k = ID v) (AList.update (ID f) f m)"
  by (induction m) auto

lemma list_all_delete:
  "list_all (\<lambda>(k, v). k = ID v) m \<Longrightarrow> list_all (\<lambda>(k, v). k = ID v) (AList.delete i m)"
  by (induction m) auto

lemma keyed_update: "keyed m \<Longrightarrow> keyed (AList.update (ID f) f m)"
  by (simp add: keyed_def distinct_update list_all_update)

lemma keyed_delete: "keyed m \<Longrightarrow> keyed (AList.delete i m)"
  by (simp add: keyed_def distinct_delete list_all_delete)

lemma keyed_load: "keyed m \<Longrightarrow> keyed (ApplyDelta_load fs m)"
  by (induction fs arbitrary: m) (simp_all add: keyed_update)

lemma keyed_remove: "keyed m \<Longrightarrow> keyed (ApplyDelta_remove is m)"
  by (induction "is" arbitrary: m) (simp_all add: keyed_delete)

lemma keyed_add: "ApplyDelta_add fs m = Inr m' \<Longrightarrow> keyed m \<Longrightarrow> keyed m'"
  by (induction fs arbitrary: m) (auto simp: keyed_update split: if_splits)

lemma keyed_upd: "ApplyDelta_update fs m = Inr m' \<Longrightarrow> keyed m \<Longrightarrow> keyed m'"
  by (induction fs arbitrary: m) (auto simp: keyed_update split: if_splits)

lemma keyed_values:
  assumes "keyed m"
  shows "set (map snd m) = ran (map_of m)" and "distinct (map ID (map snd m))"
proof -
  from assms have d: "distinct (map fst m)" and k: "list_all (\<lambda>(k, v). k = ID v) m"
    by (simp_all add: keyed_def)
  show "set (map snd m) = ran (map_of m)"
    using d by (simp add: ran_distinct)
  from k have "map (ID \<circ> snd) m = map fst m"
    by (induction m) auto
  with d show "distinct (map ID (map snd m))" by (simp only: map_map)
qed

lemma keys0:
  "fst ` set (ApplyDelta_remove R (ApplyDelta_load E [])) = ID ` set E - set R"
proof -
  have "fst ` set (ApplyDelta_remove R (ApplyDelta_load E [])) = dom (map_of (ApplyDelta_remove R (ApplyDelta_load E [])))"
    by (rule keys_dom)
  also have "\<dots> = dom (fenceMap_of E |` (- set R))"
    by (simp add: remove_map_of load_map_of)
  also have "\<dots> = ID ` set E - set R"
    by (auto simp: dom_fenceMap_of)
  finally show ?thesis .
qed

lemma claimed_error_alt:
  "claimed_error E d =
     ((\<exists>f\<in>set (Added d). ID f \<in> ID ` set E - set (RemovedIDs d)) \<or>
      (\<exists>f\<in>set (Updated d). ID f \<notin> (ID ` set E - set (RemovedIDs d)) \<union> ID ` set (Added d)))"
  by (auto simp: claimed_error_def Let_def list_ex_iff)

text \<open>
  Claim C10, as amended. \<open>ApplyDelta(E, d)\<close> returns an error when some fence in
  \<open>d.Added\<close> has an id still present after the removals or shared with another fence of
  \<open>d.Added\<close>, or when some fence in \<open>d.Updated\<close> has an id that is neither left after the
  removals nor added. Otherwise it returns, in an order the model does not fix and with
  one fence per id, exactly the fences of the map obtained from \<open>E\<close> (read as a map from id
  to fence, a later entry replacing an earlier one of the same id) by removing the ids in
  \<open>d.RemovedIDs\<close>, inserting every fence of \<open>d.Added\<close> and replacing entries with those of
  \<open>d.Updated\<close>.
\<close>

theorem ApplyDelta_result:
  "(ApplyDelta_error existing delta \<longrightarrow> isl (ApplyDelta existing delta)) \<and>
   (\<not> ApplyDelta_error existing delta \<longrightarrow>
      (\<exists>r. ApplyDelta existing delta = Inr r \<and>
           set r = ran (ApplyDelta_map existing delta) \<and> distinct (map ID r)))"
proof -
  let ?m0 = "ApplyDelta_remove (RemovedIDs delta) (ApplyDelta_load existing [])"
  have "keyed []" by (simp add: keyed_def)
  then have k0: "keyed ?m0" by (intro keyed_remove keyed_load)
  have keys: "fst ` set ?m0 = ID ` set existing - set (RemovedIDs delta)" by (rule keys0)
  have mo0: "map_of ?m0 = fenceMap_of existing |` (- set (RemovedIDs delta))"
    by (simp add: remove_map_of load_map_of)
  show ?thesis
  proof (cases "ApplyDelta_add (Added delta) ?m0")
    case (Inl e)
    then have "isl (ApplyDelta_add (Added delta) ?m0)" by simp
    then have "ApplyDelta_error existing delta"
      unfolding add_isl keys ApplyDelta_error_def claimed_error_alt by auto
    moreover have "isl (ApplyDelta existing delta)"
      using Inl by (simp add: ApplyDelta_def Let_def)
    ultimately show ?thesis by simp
  next
    case (Inr m1)
    then have "\<not> isl (ApplyDelta_add (Added delta) ?m0)" by simp
    then have noadd: "\<not> (\<exists>f\<in>set (Added delta). ID f \<in> ID ` set existing - set (RemovedIDs delta))"
      and dist: "distinct (map ID (Added delta))"
      unfolding add_isl keys by auto
    have k1: "keyed m1" using keyed_add [OF Inr k0] .
    have mo1: "map_of m1 = map_of ?m0 ++ fenceMap_of (Added delta)" using add_map_of [OF Inr] .
    have keys1: "fst ` set m1 = (ID ` set existing - set (RemovedIDs delta)) \<union> ID ` set (Added delta)"
      unfolding keys_dom mo1 using keys by (auto simp add: dom_fenceMap_of keys_dom)
    show ?thesis
    proof (cases "ApplyDelta_update (Updated delta) m1")
      case (Inl e)
      then have "isl (ApplyDelta_update (Updated delta) m1)" by simp
      then have "ApplyDelta_error existing delta"
        unfolding update_isl keys1 ApplyDelta_error_def claimed_error_alt by auto
      moreover have "isl (ApplyDelta existing delta)"
        using Inl \<open>ApplyDelta_add (Added delta) ?m0 = Inr m1\<close> by (simp add: ApplyDelta_def Let_def)
      ultimately show ?thesis by simp
    next
      case (Inr m2)
      then have "\<not> isl (ApplyDelta_update (Updated delta) m1)" by simp
      then have noupd: "\<not> (\<exists>f\<in>set (Updated delta). ID f \<notin> (ID ` set existing - set (RemovedIDs delta)) \<union> ID ` set (Added delta))"
        unfolding update_isl keys1 by auto
      have ne: "\<not> ApplyDelta_error existing delta"
        unfolding ApplyDelta_error_def claimed_error_alt using noadd noupd dist by auto
      have k2: "keyed m2" using keyed_upd [OF Inr k1] .
      have mo2: "map_of m2 = ApplyDelta_map existing delta"
        unfolding update_map_of [OF Inr] mo1 mo0 ApplyDelta_map_def ..
      have res: "ApplyDelta existing delta = Inr (map snd m2)"
        using Inr \<open>ApplyDelta_add (Added delta) ?m0 = Inr m1\<close> by (simp add: ApplyDelta_def Let_def)
      show ?thesis
        using ne res keyed_values [OF k2] mo2 by simp
    qed
  qed
qed

text \<open>
  The claim as stated fails: with no existing fence and a delta that adds the same fence
  twice, no added id is present after the removals and nothing is updated, so the claim
  promises the one-fence set; the code returns the error "already exists".
\<close>

theorem ApplyDelta_counterexample:
  "\<not> claimed_error [] \<lparr>Added = [fence_x, fence_x], RemovedIDs = [], Updated = []\<rparr> \<and>
   ApplyDelta [] \<lparr>Added = [fence_x, fence_x], RemovedIDs = [], Updated = []\<rparr>
     = Inl (Err ''fence x already exists'')"
  by (simp add: claimed_error_def ApplyDelta_def fence_x_def)

theorem ApplyDelta_result_witness:
  "ApplyDelta_error [] \<lparr>Added = [fence_x, fence_x], RemovedIDs = [], Updated = []\<rparr> \<and>
   isl (ApplyDelta [] \<lparr>Added = [fence_x, fence_x], RemovedIDs = [], Updated = []\<rparr>) \<and>
   \<not> ApplyDelta_error [fence_x] \<lparr>Added = [], RemovedIDs = [], Updated = [fence_x\<lparr>Priority := 9\<rparr>]\<rparr> \<and>
   (\<exists>r. ApplyDelta [fence_x] \<lparr>Added = [], RemovedIDs = [], Updated = [fence_x\<lparr>Priority := 9\<rparr>]\<rparr> = Inr r \<and>
        set r = ran (ApplyDelta_map [fence_x] \<lparr>Added = [], RemovedIDs = [], Updated = [fence_x\<lparr>Priority := 9\<rparr>]\<rparr>) \<and>
        distinct (map ID r))"
proof -
  have e: "ApplyDelta_error [] \<lparr>Added = [fence_x, fence_x], RemovedIDs = [], Updated = []\<rparr>"
    by (simp add: ApplyDelta_error_def)
  have n: "\<not> ApplyDelta_error [fence_x] \<lparr>Added = [], RemovedIDs = [], Updated = [fence_x\<lparr>Priority := 9\<rparr>]\<rparr>"
    by (simp add: ApplyDelta_error_def claimed_error_def fence_x_def)
  from e n
    ApplyDelta_result [of "[]" "\<lparr>Added = [fence_x, fence_x], RemovedIDs = [], Updated = []\<rparr>"]
    ApplyDelta_result [of "[fence_x]" "\<lparr>Added = [], RemovedIDs = [], Updated = [fence_x\<lparr>Priority := 9\<rparr>]\<rparr>"]
  show ?thesis by blast
qed

subsection \<open>The store\<close>

lemma fold_max_ge: "a \<le> fold max xs (a::int)"
  by (induction xs arbitrary: a) (auto intro: order_trans [OF max.cobounded2])

lemma fold_max_mem: "x \<in> set xs \<Longrightarrow> x \<le> fold max xs (a::int)"
proof (induction xs arbitrary: a)
  case Nil
  then show ?case by simp
next
  case (Cons y ys)
  show ?case
  proof (cases "x = y")
    case True
    have "y \<le> max y a" by simp
    also have "\<dots> \<le> fold max ys (max y a)" by (rule fold_max_ge)
    finally show ?thesis using True by simp
  next
    case False
    with Cons show ?thesis by simp
  qed
qed

lemma next_rowid_fresh: "next_rowid s \<notin> set (map fst (fences s))"
proof
  assume "next_rowid s \<in> set (map fst (fences s))"
  then have "next_rowid s \<le> fold max (map fst (fences s)) (sqlite_sequence s)"
    by (rule fold_max_mem)
  then show False by (simp add: next_rowid_def)
qed

lemma AddFence_cases:
  "snd (AddFence f s io) = (s, snd (snd (AddFence f s io))) \<or>
   (ID f \<notin> set (map (\<lambda>(r, g). ID g) (fences s)) \<and> next_rowid s \<notin> set (map fst (fence_index s)) \<and>
    fst (snd (AddFence f s io)) =
      s\<lparr>fences := fences s @ [(next_rowid s, f)], sqlite_sequence := next_rowid s,
        fence_index := fence_index s @ [(next_rowid s, GetBounds f)]\<rparr>)"
  by (auto simp: AddFence_def Let_def split: prod.splits bool.splits)

lemma AddFence_inv: "store_inv s \<Longrightarrow> store_inv (fst (snd (AddFence f s io)))"
proof -
  assume inv: "store_inv s"
  from AddFence_cases [of f s io] show ?thesis
  proof
    assume "snd (AddFence f s io) = (s, snd (snd (AddFence f s io)))"
    then have "fst (snd (AddFence f s io)) = s" by (metis fst_conv)
    with inv show ?thesis by simp
  next
    assume a: "ID f \<notin> set (map (\<lambda>(r, g). ID g) (fences s)) \<and> next_rowid s \<notin> set (map fst (fence_index s)) \<and>
      fst (snd (AddFence f s io)) =
      s\<lparr>fences := fences s @ [(next_rowid s, f)], sqlite_sequence := next_rowid s,
        fence_index := fence_index s @ [(next_rowid s, GetBounds f)]\<rparr>"
    with inv next_rowid_fresh [of s] show ?thesis
      by (auto simp: store_inv_def index_consistent_def)
  qed
qed

lemma UpdateFence_cases:
  "fst (snd (UpdateFence f s io)) = s \<or>
   fst (snd (UpdateFence f s io)) =
      s\<lparr>fences := map (\<lambda>(r, g). if ID g = ID f then (r, f) else (r, g)) (fences s),
        fence_index := map (\<lambda>(r, b). if Some r = select_rowid
             (s\<lparr>fences := map (\<lambda>(r, g). if ID g = ID f then (r, f) else (r, g)) (fences s)\<rparr>) (ID f)
             then (r, GetBounds f) else (r, b)) (fence_index s)\<rparr>"
  by (auto simp: UpdateFence_def Let_def split: prod.splits bool.splits)

lemma map_fst_upd_fences:
  "map fst (map (\<lambda>(r, g). if ID g = i then (r, f) else (r, g)) xs) = map fst xs"
  by (induction xs) auto

lemma map_fst_upd_index:
  "map fst (map (\<lambda>(r, b). if Some r = t then (r, c) else (r, b)) xs) = map fst xs"
  by (induction xs) auto

lemma map_ID_upd:
  "map (\<lambda>(r, g). ID g) (map (\<lambda>(r, g). if ID g = ID f then (r, f) else (r, g)) xs) = map (\<lambda>(r, g). ID g) xs"
  by (induction xs) auto

lemma UpdateFence_inv: "store_inv s \<Longrightarrow> store_inv (fst (snd (UpdateFence f s io)))"
proof -
  assume inv: "store_inv s"
  from UpdateFence_cases [of f s io] show ?thesis
  proof
    assume "fst (snd (UpdateFence f s io)) = s"
    with inv show ?thesis by simp
  next
    assume a: "fst (snd (UpdateFence f s io)) =
      s\<lparr>fences := map (\<lambda>(r, g). if ID g = ID f then (r, f) else (r, g)) (fences s),
        fence_index := map (\<lambda>(r, b). if Some r = select_rowid
             (s\<lparr>fences := map (\<lambda>(r, g). if ID g = ID f then (r, f) else (r, g)) (fences s)\<rparr>) (ID f)
             then (r, GetBounds f) else (r, b)) (fence_index s)\<rparr>"
    show ?thesis
      unfolding a store_inv_def index_consistent_def
      using inv by (simp del: map_map add: map_fst_upd_fences map_fst_upd_index map_ID_upd store_inv_def index_consistent_def)
  qed
qed

lemma DeleteFence_cases:
  "fst (snd (DeleteFence i s io)) = s \<or>
   (\<exists>rowID. select_rowid s i = Some rowID \<and>
    fst (snd (DeleteFence i s io)) =
      s\<lparr>fences := filter (\<lambda>(r, g). ID g \<noteq> i) (fences s),
        fence_index := filter (\<lambda>(r, b). r \<noteq> rowID) (fence_index s)\<rparr>)"
  by (auto simp: DeleteFence_def Let_def split: prod.splits bool.splits option.splits)

lemma select_rowid_unique:
  assumes "distinct (map (\<lambda>(r, g). ID g) rows)" and "select_rowid (s\<lparr>fences := rows\<rparr>) i = Some rowID"
    and "distinct (map fst rows)"
  shows "fst ` set (filter (\<lambda>(r, g). ID g \<noteq> i) rows) = fst ` set rows - {rowID}"
  using assms
proof (induction rows)
  case Nil
  then show ?case by (simp add: select_rowid_def)
next
  case (Cons x xs)
  obtain r g where x: "x = (r, g)" by (cases x)
  show ?case
  proof (cases "ID g = i")
    case True
    with Cons.prems x have rid: "rowID = r" by (simp add: select_rowid_def)
    from True Cons.prems(1) x have "\<forall>(r', g') \<in> set xs. ID g' \<noteq> i" by (auto simp: image_iff)
    then have "filter (\<lambda>(r, g). ID g \<noteq> i) xs = xs" by (auto simp: filter_id_conv)
    with True x rid Cons.prems(3) show ?thesis by (auto simp: image_iff)
  next
    case False
    with Cons.prems x have sel: "select_rowid (s\<lparr>fences := xs\<rparr>) i = Some rowID"
      by (simp add: select_rowid_def)
    have "rowID \<in> fst ` set xs"
    proof -
      from sel obtain g' rest where "filter (\<lambda>(r, g). ID g = i) xs = (rowID, g') # rest"
        by (auto simp: select_rowid_def split: list.splits)
      then have "(rowID, g') \<in> set (filter (\<lambda>(r, g). ID g = i) xs)" by simp
      then have "(rowID, g') \<in> set xs" by simp
      then show ?thesis by force
    qed
    with Cons.IH [OF _ sel] Cons.prems x False show ?thesis by (auto simp: image_iff)
  qed
qed

lemma DeleteFence_inv: "store_inv s \<Longrightarrow> store_inv (fst (snd (DeleteFence i s io)))"
proof -
  assume inv: "store_inv s"
  from DeleteFence_cases [of i s io] show ?thesis
  proof
    assume "fst (snd (DeleteFence i s io)) = s"
    with inv show ?thesis by simp
  next
    assume "\<exists>rowID. select_rowid s i = Some rowID \<and>
      fst (snd (DeleteFence i s io)) =
      s\<lparr>fences := filter (\<lambda>(r, g). ID g \<noteq> i) (fences s),
        fence_index := filter (\<lambda>(r, b). r \<noteq> rowID) (fence_index s)\<rparr>"
    then obtain rowID where sel: "select_rowid s i = Some rowID"
      and a: "fst (snd (DeleteFence i s io)) =
        s\<lparr>fences := filter (\<lambda>(r, g). ID g \<noteq> i) (fences s),
          fence_index := filter (\<lambda>(r, b). r \<noteq> rowID) (fence_index s)\<rparr>"
      by blast
    from inv have d1: "distinct (map fst (fences s))" and d2: "distinct (map fst (fence_index s))"
      and eq: "set (map fst (fences s)) = set (map fst (fence_index s))"
      and d3: "distinct (map (\<lambda>(r, g). ID g) (fences s))"
      by (simp_all add: store_inv_def index_consistent_def)
    have sel': "select_rowid (s\<lparr>fences := fences s\<rparr>) i = Some rowID" using sel by simp
    have k1: "fst ` set (filter (\<lambda>(r, g). ID g \<noteq> i) (fences s)) = fst ` set (fences s) - {rowID}"
      by (rule select_rowid_unique [OF d3 sel' d1])
    have k2: "fst ` set (filter (\<lambda>(r, b). r \<noteq> rowID) (fence_index s)) = fst ` set (fence_index s) - {rowID}"
      by (auto simp: image_iff)
    have e1: "distinct (map fst (filter (\<lambda>(r, g). ID g \<noteq> i) (fences s)))"
      using d1 by (rule distinct_map_filter)
    have e2: "distinct (map fst (filter (\<lambda>(r, b). r \<noteq> rowID) (fence_index s)))"
      using d2 by (rule distinct_map_filter)
    have e3: "distinct (map (\<lambda>(r, g). ID g) (filter (\<lambda>(r, g). ID g \<noteq> i) (fences s)))"
      using d3 by (rule distinct_map_filter)
    show ?thesis
      unfolding a store_inv_def index_consistent_def
      using e1 e2 e3 k1 k2 eq by simp
  qed
qed

lemma apply_mutation_inv: "store_inv s \<Longrightarrow> store_inv (fst (snd (apply_mutation m s io)))"
  by (cases m) (simp_all add: AddFence_inv UpdateFence_inv DeleteFence_inv)

lemma run_mutations_inv: "store_inv s \<Longrightarrow> store_inv (fst (run_mutations ms s io))"
proof (induction ms arbitrary: s io)
  case Nil
  then show ?case by simp
next
  case (Cons m ms)
  obtain e s' io' where r: "apply_mutation m s io = (e, s', io')" by (cases "apply_mutation m s io")
  then have "store_inv s'" using apply_mutation_inv [OF Cons.prems, of m io] by simp
  then show ?case using Cons.IH r by simp
qed

lemma empty_store_inv: "store_inv empty_store"
  by (simp add: store_inv_def index_consistent_def empty_store_def)

text \<open>
  Claim C8. After every sequence of \<open>AddFence\<close>, \<open>UpdateFence\<close> and \<open>DeleteFence\<close> calls
  on a new store, whatever calls into the database fail on the way, the fence table and
  the R-Tree index are in one-to-one correspondence: no rowid occurs twice in either and
  both hold the same rowids. Every prefix of a sequence is a sequence, so this holds
  after every single mutation as well.
\<close>

theorem store_index_consistent:
  "index_consistent (fst (run_mutations ms empty_store io))"
  using run_mutations_inv [OF empty_store_inv, of ms io] by (simp add: store_inv_def)

theorem store_index_consistent_witness:
  "index_consistent
     (fst (run_mutations [MAddFence fence_a, MAddFence fence_a, MUpdateFence fence_b,
                          MDeleteFence ''a'']
             empty_store [False, False, False, False, False, False, False, True]))"
  by (rule store_index_consistent)

subsection \<open>The Merkle tree\<close>

text \<open>
  Claim C7, evaluated on a level of three nodes. The first two are paired under a parent
  whose hash is the SHA-256 of their two hashes. The third is not carried to the next
  level: it is put under a parent of its own, with no right child, whose hash is the
  SHA-256 of the third node's hash alone, and the root hashes that parent.
\<close>

theorem buildTree_odd_level:
  "buildTree lib a [n1, n2, n3] =
     Some (Node (a + 2)
             (SHA256 lib (SHA256 lib (Hash n1 @ Hash n2) @ SHA256 lib (Hash n3)))
             (Some (Node a (SHA256 lib (Hash n1 @ Hash n2)) (Some n1) (Some n2) False [] []))
             (Some (Node (a + 1) (SHA256 lib (Hash n3)) (Some n3) None False [] []))
             False [] [])"
  by (simp add: buildTree_def buildTree_loop.simps)

lemma sort2: "ID fa < ID fb \<Longrightarrow> sort_key ID [fa, fb] = [fa, fb]"
  by simp

lemma NewTree_two:
  assumes "ID fa < ID fb"
  shows "NewTree lib [fa, fb] =
    \<lparr>root = Some (Node 2 (SHA256 lib (leaf_hash lib fa @ leaf_hash lib fb))
               (Some (Node 0 (leaf_hash lib fa) None None True (ID fa) (json_Marshal_FenceItem lib fa)))
               (Some (Node 1 (leaf_hash lib fb) None None True (ID fb) (json_Marshal_FenceItem lib fb)))
               False [] []),
     leaves = [(ID fa, Node 0 (leaf_hash lib fa) None None True (ID fa) (json_Marshal_FenceItem lib fa)),
               (ID fb, Node 1 (leaf_hash lib fb) None None True (ID fb) (json_Marshal_FenceItem lib fb))]\<rparr>"
proof -
  from assms have "ID fa \<le> ID fb" and "ID fa \<noteq> ID fb" by simp_all
  then show ?thesis
    by (simp add: NewTree_def Let_def buildTree_def buildTree_loop.simps leaf_hash_def)
qed

text \<open>
  Claim C6, evaluated on a set of two fences. Assume the first fence's JSON decodes back
  to the fence, a digest is never empty, and the root is not a fixed point of SHA-256.
  Then the proof \<open>GetProof\<close> returns for the first fence, a member of the set, is the hash
  of the second leaf without any side tag, and \<open>VerifyProof\<close> of the fence's own bytes
  with that proof against the tree's root returns false: the verifier hashes the digest
  of \<open>current || sibling\<close> a second time, which the builder does not.
\<close>

theorem VerifyProof_two_fences:
  assumes order: "ID fa < ID fb"
    and roundtrip: "json_Unmarshal_FenceItem lib (json_Marshal_FenceItem lib fa) = Some fa"
    and digest: "\<forall>x. SHA256 lib x \<noteq> []"
    and nofix: "SHA256 lib (Tree_RootHash (NewTree lib [fa, fb])) \<noteq> Tree_RootHash (NewTree lib [fa, fb])"
  shows "GetProof (NewTree lib [fa, fb]) (ID fa) = Some (Inr [leaf_hash lib fb]) \<and>
         VerifyProof lib (ID fa) (json_Marshal_FenceItem lib fa) [leaf_hash lib fb]
            (Tree_RootHash (NewTree lib [fa, fb])) = Inr False"
proof -
  have ne: "ID fa \<noteq> ID fb" using order by simp
  have rh: "Tree_RootHash (NewTree lib [fa, fb]) = SHA256 lib (leaf_hash lib fa @ leaf_hash lib fb)"
    by (simp add: NewTree_two [OF order] Tree_RootHash_def)
  have nonempty: "leaf_hash lib fb \<noteq> []" using digest by (simp add: leaf_hash_def)
  have p: "GetProof (NewTree lib [fa, fb]) (ID fa) = Some (Inr [leaf_hash lib fb])"
    using ne nonempty
    by (simp add: NewTree_two [OF order] GetProof_def GetProof_loop.simps same_node_def
          findParent_def Let_def)
  have v: "VerifyProof lib (ID fa) (json_Marshal_FenceItem lib fa) [leaf_hash lib fb]
            (Tree_RootHash (NewTree lib [fa, fb])) = Inr False"
    using nofix nonempty roundtrip unfolding rh
    by (simp add: VerifyProof_def Let_def leaf_hash_def)
  from p v show ?thesis by simp
qed

lemma order_ab: "ID fence_a < ID fence_b"
  by (simp add: fence_a_def fence_b_def)

theorem VerifyProof_two_fences_witness:
  "ID fence_a < ID fence_b \<and>
   GetProof (NewTree example_lib [fence_a, fence_b]) (ID fence_a)
     = Some (Inr [leaf_hash example_lib fence_b]) \<and>
   VerifyProof example_lib (ID fence_a) (json_Marshal_FenceItem example_lib fence_a)
     [leaf_hash example_lib fence_b] (Tree_RootHash (NewTree example_lib [fence_a, fence_b]))
     = Inr False"
proof -
  have rt: "json_Unmarshal_FenceItem example_lib (json_Marshal_FenceItem example_lib fence_a)
      = Some fence_a"
    by (simp add: example_lib_def)
  have dg: "\<forall>x. SHA256 example_lib x \<noteq> []"
    by (simp add: example_lib_def example_SHA256_def)
  have nf: "SHA256 example_lib (Tree_RootHash (NewTree example_lib [fence_a, fence_b]))
      \<noteq> Tree_RootHash (NewTree example_lib [fence_a, fence_b])"
    using order_ab
    by (simp add: NewTree_def Let_def buildTree_def buildTree_loop.simps Tree_RootHash_def
          example_lib_def example_SHA256_def)
  from VerifyProof_two_fences [OF order_ab rt dg nf] order_ab show ?thesis by simp
qed

theorem buildTree_odd_level_witness:
  "buildTree example_lib 3
     [Node 0 [1] None None True ''a'' [], Node 1 [2] None None True ''b'' [],
      Node 2 [3] None None True ''c'' []] =
   Some (Node 5 [1]
           (Some (Node 3 [0] (Some (Node 0 [1] None None True ''a'' []))
                    (Some (Node 1 [2] None None True ''b'' [])) False [] []))
           (Some (Node 4 [0] (Some (Node 2 [3] None None True ''c'' [])) None False [] []))
           False [] [])"
  using buildTree_odd_level [of example_lib 3 "Node 0 [1] None None True ''a'' []"
      "Node 1 [2] None None True ''b'' []" "Node 2 [3] None None True ''c'' []"]
  by (simp add: example_lib_def example_SHA256_def)

subsection \<open>The manifest signature\<close>

text \<open>
  Claim C2, evaluated on every manifest the publisher signs. Assume a client with a
  public key configured, a signature scheme in which a signature verifies under that key
  only for the message it was made for, and a JSON decoder that returns the manifest
  from its indented and from its compact encoding. Then \<open>FetchManifest\<close> rejects the file
  the publisher wrote: the publisher signs the compact encoding of the manifest with the
  signature cleared, and the client verifies the signature over the bytes of the file,
  which encode the manifest with its signature.
\<close>

theorem FetchManifest_rejects_published:
  assumes key: "publicKey c \<noteq> []"
    and signing: "Publish_sign lib keyPair manifest = Inr published"
    and unforgeable:
      "\<forall>msg msg'. ed25519_Verify lib (publicKey c) msg (ed25519_Sign lib (PrivateKey keyPair) msg')
         \<longrightarrow> msg = msg'"
    and decode_published:
      "json_Unmarshal_Manifest lib (json_MarshalIndent_Manifest lib published) = Some published"
    and decode_presigned:
      "json_Unmarshal_Manifest lib (json_Marshal_Manifest lib (manifest\<lparr>ManifestSignature := []\<rparr>))
         = Some (manifest\<lparr>ManifestSignature := []\<rparr>)"
  shows "isl (FetchManifest lib c (Inr (writeManifest lib published)))"
proof -
  let ?pre = "manifest\<lparr>ManifestSignature := []\<rparr>"
  let ?data = "json_MarshalIndent_Manifest lib published"
  let ?sig = "ed25519_Sign lib (PrivateKey keyPair) (json_Marshal_Manifest lib ?pre)"
  from signing have s: "published = manifest\<lparr>ManifestSignature := ?sig, ManifestKeyID := KeyPairKeyID keyPair\<rparr>"
    by (auto simp: Publish_sign_def KeyPair_Sign_def SetSignature_def MarshalBinaryForSigning_def
          Let_def split: if_splits)
  then have sig: "ManifestSignature published = ?sig" by simp
  have v: "verifyManifestSignature lib c published ?data \<noteq> None"
  proof (cases "length (ManifestSignature published) = 0")
    case True
    then show ?thesis using key by (simp add: verifyManifestSignature_def)
  next
    case False
    have "\<not> Verify lib (publicKey c) ?data (ManifestSignature published)"
    proof
      assume "Verify lib (publicKey c) ?data (ManifestSignature published)"
      then have "ed25519_Verify lib (publicKey c) ?data ?sig"
        unfolding sig by (simp add: Verify_def split: if_splits)
      with unforgeable have "?data = json_Marshal_Manifest lib ?pre" by blast
      with decode_published decode_presigned have "published = ?pre" by simp
      then have "ManifestSignature published = ManifestSignature ?pre" by (rule arg_cong)
      then have "ManifestSignature published = []" by simp
      with False show False by simp
    qed
    then show ?thesis using key False by (simp add: verifyManifestSignature_def)
  qed
  then show ?thesis
    using decode_published
    by (auto simp: FetchManifest_def writeManifest_def split: option.splits sum.splits)
qed

theorem FetchManifest_rejects_published_witness:
  "publicKey client_with_key \<noteq> [] \<and>
   Publish_sign example_lib example_keyPair manifest_v1 = Inr signed_v1 \<and>
   FetchManifest example_lib client_with_key (Inr (writeManifest example_lib signed_v1))
     = Inl (Err ''manifest signature verification failed: invalid signature'')"
proof -
  have key: "publicKey client_with_key \<noteq> []" by (simp add: client_with_key_def)
  have signing: "Publish_sign example_lib example_keyPair manifest_v1 = Inr signed_v1"
    by (simp add: Publish_sign_def KeyPair_Sign_def SetSignature_def MarshalBinaryForSigning_def
          example_lib_def example_keyPair_def manifest_v1_def signed_v1_def)
  have unforgeable:
    "\<forall>msg msg'. ed25519_Verify example_lib (publicKey client_with_key) msg
         (ed25519_Sign example_lib (PrivateKey example_keyPair) msg') \<longrightarrow> msg = msg'"
    by (simp add: example_lib_def)
  have d1: "json_Unmarshal_Manifest example_lib (json_MarshalIndent_Manifest example_lib signed_v1)
      = Some signed_v1"
    by (simp add: example_lib_def signed_v1_def)
  have d2: "json_Unmarshal_Manifest example_lib
        (json_Marshal_Manifest example_lib (manifest_v1\<lparr>ManifestSignature := []\<rparr>))
      = Some (manifest_v1\<lparr>ManifestSignature := []\<rparr>)"
    by (simp add: example_lib_def manifest_v1_def)
  have e: "FetchManifest example_lib client_with_key (Inr (writeManifest example_lib signed_v1))
     = Inl (Err ''manifest signature verification failed: invalid signature'')"
    using FetchManifest_rejects_published [OF key signing unforgeable d1 d2]
    by (simp add: FetchManifest_def writeManifest_def verifyManifestSignature_def Verify_def wrap_def
          example_lib_def client_with_key_def signed_v1_def manifest_v1_def PublicKeySize_def)
  from key signing e show ?thesis by simp
qed

subsection \<open>Sync\<close>

lemma store_a_eq:
  "store_a = \<lparr>fences = [(1, fence_a)],
               fence_index = [(1, \<lparr>MinLat = 0, MinLon = 0, MaxLat = 10, MaxLon = 10\<rparr>)],
               metadata_manifest = None, metadata_version = None, sqlite_sequence = 1\<rparr>"
  by (simp add: store_a_def AddFence_def db_call_def empty_store_def next_rowid_def
        fence_a_def box10_def GetBounds_def Let_def)

lemmas store_eval = UpdateFence_def AddFence_def SetManifest_def SetVersion_def BeginTx_def
  Tx_Commit_def db_call_def next_rowid_def select_rowid_def GetBounds_def Let_def
  ErrFenceNotFound_def wrap_def

lemma ids_ab: "ID fence_a = ''a''" "ID fence_b = ''b''" "Geometry fence_b = box10" "BBox box10 = Some \<lparr>MinLat = 0, MinLon = 0, MaxLat = 10, MaxLon = 10\<rparr>"
  by (simp_all add: fence_a_def fence_b_def box10_def)

lemma manifest_v1_fields:
  "Version manifest_v1 = 1" "DeltaURL manifest_v1 = []"
  "SnapshotURL manifest_v1 = ''/snapshots/v1.bin''"
  "SnapshotHash manifest_v1 = []" "RootHash manifest_v1 = []"
  by (simp_all add: manifest_v1_def)

lemma FetchManifest_unsigned:
  "json_Unmarshal_Manifest lib body = Some manifest_v1 \<Longrightarrow>
   FetchManifest lib client0 (Inr body) = Inr manifest_v1"
  by (simp add: FetchManifest_def verifyManifestSignature_def client0_def)

lemma updateStorage_store_a:
  "updateStorage [fence_b] manifest_v1 store_a [] = (None, store_ab_v1, [])"
  unfolding store_a_eq store_ab_v1_def
  by (simp add: updateStorage_def store_eval ids_ab manifest_v1_def)

lemma updateStorage_fail_10:
  "updateStorage [fence_b] manifest_v1 empty_store fail_10th =
     (Some (Err ''failed to store manifest: failed to store manifest''), store_b, [])"
  by (simp add: updateStorage_def store_eval ids_ab manifest_v1_def empty_store_def store_b_def fail_10th_def)

lemma updateStorage_fail_12:
  "updateStorage [fence_b] manifest_v1 empty_store fail_12th =
     (Some (Err ''failed to commit transaction: commit failed''),
      store_b\<lparr>metadata_manifest := Some manifest_v1, metadata_version := Some 1\<rparr>, [])"
  by (simp add: updateStorage_def store_eval ids_ab manifest_v1_def empty_store_def store_b_def fail_12th_def)

lemma applySnapshot_eval:
  assumes "snapshot_response remote ''/snapshots/v1.bin'' = Inr snapshotData"
    and "json_Unmarshal_FenceCollection lib snapshotData = Some collection"
    and "Items collection = [fence_b]"
    and "updateStorage [fence_b] manifest_v1 st io = (e, st', io')"
  shows "applySnapshot lib remote manifest_v1 \<lparr>client = client0, store = st, currentVer = 0\<rparr> io =
     (map_option (wrap ''failed to update storage'') e,
      \<lparr>client = client0, store = st', currentVer = 0\<rparr>, io')"
  using assms
  by (cases e) (simp_all add: applySnapshot_def FetchSnapshot_def LoadSnapshot_def manifest_v1_fields)

lemma Sync_eval:
  assumes "manifest_response remote = Inr body"
    and "json_Unmarshal_Manifest lib body = Some manifest_v1"
    and "snapshot_response remote ''/snapshots/v1.bin'' = Inr snapshotData"
    and "json_Unmarshal_FenceCollection lib snapshotData = Some collection"
    and "Items collection = [fence_b]"
    and "updateStorage [fence_b] manifest_v1 st io = (e, st', io')"
  shows "Sync lib remote \<lparr>client = client0, store = st, currentVer = 0\<rparr> io =
     (\<lparr>UpToDate = False, PreviousVer = 0, CurrentVer = 1,
       Error = map_option (\<lambda>err. wrap ''failed to apply update'' (wrap ''failed to update storage'' err)) e\<rparr>,
      \<lparr>client = client0, store = st', currentVer = (if e = None then 1 else 0)\<rparr>, io')"
  using applySnapshot_eval [OF assms(3-6)] FetchManifest_unsigned [OF assms(2)] assms(1)
  by (cases e) (simp_all add: Sync_def Let_def manifest_v1_fields)

text \<open>
  Claim C4, evaluated on a store that holds fence \<open>a\<close> and a snapshot that holds fence
  \<open>b\<close> only, with a manifest of version 1 and no failing call. The sync succeeds on the
  snapshot path and the store then holds both \<open>a\<close> and \<open>b\<close>: \<open>updateStorage\<close> updates or
  adds the fences of the snapshot and deletes nothing.
\<close>

theorem Sync_snapshot_keeps_absent_fence:
  assumes "manifest_response remote = Inr body"
    and "json_Unmarshal_Manifest lib body = Some manifest_v1"
    and "snapshot_response remote ''/snapshots/v1.bin'' = Inr snapshotData"
    and "json_Unmarshal_FenceCollection lib snapshotData = Some collection"
    and "Items collection = [fence_b]"
  shows "Sync lib remote \<lparr>client = client0, store = store_a, currentVer = 0\<rparr> [] =
     (\<lparr>UpToDate = False, PreviousVer = 0, CurrentVer = 1, Error = None\<rparr>,
      \<lparr>client = client0, store = store_ab_v1, currentVer = 1\<rparr>, [])"
  using Sync_eval [OF assms updateStorage_store_a] by simp

text \<open>
  Claim C1, evaluated on an empty store at version 0, a manifest of version 1 and a
  snapshot holding fence \<open>b\<close>. When the 10th call into the database fails (the write of
  the manifest), the sync returns an error and the store holds fence \<open>b\<close>. When the 12th
  fails (the commit of the transaction \<open>updateStorage\<close> opened), the sync returns an
  error and the store holds fence \<open>b\<close>, the new manifest and version 1. The store's
  methods do not run inside that transaction, so its rollback undoes nothing.
\<close>

theorem Sync_failure_changes_store:
  assumes "manifest_response remote = Inr body"
    and "json_Unmarshal_Manifest lib body = Some manifest_v1"
    and "snapshot_response remote ''/snapshots/v1.bin'' = Inr snapshotData"
    and "json_Unmarshal_FenceCollection lib snapshotData = Some collection"
    and "Items collection = [fence_b]"
  shows "Sync lib remote \<lparr>client = client0, store = empty_store, currentVer = 0\<rparr> fail_10th =
     (\<lparr>UpToDate = False, PreviousVer = 0, CurrentVer = 1,
       Error = Some (Err ''failed to apply update: failed to update storage: failed to store manifest: failed to store manifest'')\<rparr>,
      \<lparr>client = client0, store = store_b, currentVer = 0\<rparr>, []) \<and>
    Sync lib remote \<lparr>client = client0, store = empty_store, currentVer = 0\<rparr> fail_12th =
     (\<lparr>UpToDate = False, PreviousVer = 0, CurrentVer = 1,
       Error = Some (Err ''failed to apply update: failed to update storage: failed to commit transaction: commit failed'')\<rparr>,
      \<lparr>client = client0,
       store = store_b\<lparr>metadata_manifest := Some manifest_v1, metadata_version := Some 1\<rparr>,
       currentVer = 0\<rparr>, [])"
  using Sync_eval [OF assms updateStorage_fail_10] Sync_eval [OF assms updateStorage_fail_12]
  by (simp add: wrap_def)

lemma example_remote:
  "manifest_response remote_v1 = Inr [2]"
  "json_Unmarshal_Manifest example_lib [2] = Some manifest_v1"
  "snapshot_response remote_v1 ''/snapshots/v1.bin'' = Inr [1, 2, 3]"
  "json_Unmarshal_FenceCollection example_lib [1, 2, 3]
     = Some \<lparr>Items = [fence_b], CreatedTS = 0, CollectionVersion = []\<rparr>"
  "Items \<lparr>Items = [fence_b], CreatedTS = 0, CollectionVersion = []\<rparr> = [fence_b]"
  by (simp_all add: remote_v1_def example_lib_def)

theorem Sync_snapshot_keeps_absent_fence_witness:
  "Sync example_lib remote_v1 \<lparr>client = client0, store = store_a, currentVer = 0\<rparr> [] =
     (\<lparr>UpToDate = False, PreviousVer = 0, CurrentVer = 1, Error = None\<rparr>,
      \<lparr>client = client0, store = store_ab_v1, currentVer = 1\<rparr>, []) \<and>
   map snd (fences store_a) = [fence_a] \<and>
   map snd (fences store_ab_v1) = [fence_a, fence_b]"
  using Sync_snapshot_keeps_absent_fence [OF example_remote]
  by (simp add: store_a_eq store_ab_v1_def)

theorem Sync_failure_changes_store_witness:
  "Error (fst (Sync example_lib remote_v1 \<lparr>client = client0, store = empty_store, currentVer = 0\<rparr>
                 fail_10th)) \<noteq> None \<and>
   fences (store (fst (snd (Sync example_lib remote_v1
                 \<lparr>client = client0, store = empty_store, currentVer = 0\<rparr> fail_10th))))
     = [(1, fence_b)] \<and>
   fences empty_store = [] \<and>
   Error (fst (Sync example_lib remote_v1 \<lparr>client = client0, store = empty_store, currentVer = 0\<rparr>
                 fail_12th)) \<noteq> None \<and>
   metadata_version (store (fst (snd (Sync example_lib remote_v1
                 \<lparr>client = client0, store = empty_store, currentVer = 0\<rparr> fail_12th))))
     = Some 1 \<and>
   metadata_version empty_store = None"
  using Sync_failure_changes_store [OF example_remote]
  by (simp add: store_b_def empty_store_def)

subsection \<open>Check\<close>

lemma selected_snoc_keep:
  assumes "selected done k" and "\<not> Priority r > Priority (done ! k)"
  shows "selected (done @ [r]) k"
  using assms by (auto simp: selected_def list_all_iff nth_append)

lemma selected_snoc_new:
  assumes "selected done k" and "Priority r > Priority (done ! k)"
  shows "selected (done @ [r]) (length done)"
  using assms by (fastforce simp: selected_def list_all_iff nth_append)

lemma highestPriority_loop_selected:
  "selected done k \<Longrightarrow>
   \<exists>i. selected (done @ rest) i \<and> highestPriority_loop rest (done ! k) = (done @ rest) ! i"
proof (induction rest arbitrary: "done" k)
  case Nil
  then show ?case by auto
next
  case (Cons r rest)
  show ?case
  proof (cases "Priority r > Priority (done ! k)")
    case True
    have s: "selected (done @ [r]) (length done)"
      using selected_snoc_new [OF Cons.prems True] .
    from Cons.IH [OF s, of ] obtain i where
      "selected ((done @ [r]) @ rest) i"
      "highestPriority_loop rest ((done @ [r]) ! length done) = ((done @ [r]) @ rest) ! i"
      by blast
    with True show ?thesis by auto
  next
    case False
    have s: "selected (done @ [r]) k"
      using selected_snoc_keep [OF Cons.prems False] .
    have k: "k < length done" using Cons.prems by (simp add: selected_def)
    from Cons.IH [OF s] obtain i where
      "selected ((done @ [r]) @ rest) i"
      "highestPriority_loop rest ((done @ [r]) ! k) = ((done @ [r]) @ rest) ! i"
      by blast
    with False k show ?thesis by (auto simp: nth_append)
  qed
qed

lemma Check_results_selected:
  "rs \<noteq> [] \<Longrightarrow> \<exists>i. selected rs i \<and> Check_results rs = (\<not> prohibitive (rs ! i), Some (rs ! i))
      \<and> (Type (rs ! i) \<in> {FenceTypeTempRestriction, FenceTypePermanentNoFly, FenceTypeAltitudeLimit, FenceTypeSpeedLimit}
           \<longrightarrow> Manager_results rs = Check_results rs)"
proof -
  assume "rs \<noteq> []"
  then obtain r0 rest where rs: "rs = r0 # rest" by (cases rs) auto
  have "selected [r0] 0" by (simp add: selected_def)
  from highestPriority_loop_selected [OF this, of rest]
  obtain i where i: "selected ([r0] @ rest) i" "highestPriority_loop rest ([r0] ! 0) = ([r0] @ rest) ! i"
    by blast
  then have h: "highestPriority_loop rest r0 = rs ! i" and s: "selected rs i"
    using rs by simp_all
  have c: "Check_results rs = (\<not> prohibitive (rs ! i), Some (rs ! i))"
    unfolding Check_results_def rs list.case Let_def h [unfolded rs] prohibitive_def by auto
  have m: "Type (rs ! i) \<in> {FenceTypeTempRestriction, FenceTypePermanentNoFly, FenceTypeAltitudeLimit, FenceTypeSpeedLimit}
           \<longrightarrow> Manager_results rs = Check_results rs"
    unfolding Check_results_def Manager_results_def rs list.case Let_def h [unfolded rs] by auto
  from s c m show ?thesis by blast
qed

text \<open>
  Bounds on the real functions behind \<open>math.Atan2\<close>, \<open>math.Sqrt\<close>, \<open>math.Cos\<close> and
  \<open>math.Sin\<close>, and the distance they give between 89 N 0.3 E and 89 N 0 E.
\<close>

lemma arctan_le_self:
  assumes "0 \<le> (x::real)"
  shows "arctan x \<le> x"
proof -
  have "(\<lambda>t. t - arctan t) 0 \<le> (\<lambda>t. t - arctan t) x"
  proof (rule DERIV_nonneg_imp_nondecreasing [OF assms])
    fix t :: real
    have d: "((\<lambda>t. t - arctan t) has_real_derivative (1 - inverse (1 + t\<^sup>2))) (at t)"
      by (auto intro!: derivative_eq_intros)
    have "0 < 1 + t\<^sup>2" by (simp add: add_pos_nonneg)
    then have "inverse (1 + t\<^sup>2) \<le> 1"
      by (simp add: inverse_le_1_iff)
    then have "0 \<le> 1 - inverse (1 + t\<^sup>2)" by simp
    with d show "\<exists>y. ((\<lambda>t. t - arctan t) has_real_derivative y) (at t) \<and> 0 \<le> y"
      by blast
  qed
  then show ?thesis by simp
qed

lemma sqrt_ge_self:
  assumes "0 \<le> (t::real)" "t \<le> 1"
  shows "t \<le> sqrt t"
proof (rule real_le_rsqrt)
  have "t * t \<le> 1 * t" using assms by (intro mult_right_mono) auto
  then show "t\<^sup>2 \<le> t" by (simp add: power2_eq_square)
qed

lemma cos_89: "0 \<le> cos (89 * pi / 180) \<and> cos (89 * pi / 180) \<le> 4 / 180"
proof -
  have e0: "pi / 2 - 89 * pi / 180 = pi / 180" by argo
  have "cos (89 * pi / 180) = sin (pi / 2 - 89 * pi / 180)"
    using cos_sin_eq [of "89 * pi / 180 :: real"] by (simp only: of_real_eq_id id_apply)
  then have e: "cos (89 * pi / 180) = sin (pi / 180)"
    by (simp only: e0)
  have p: "0 \<le> pi / 180" by simp
  have "sin (pi / 180) \<le> pi / 180" by (rule sin_x_le_x [OF p])
  moreover have "pi / 180 \<le> 4 / 180" using pi_less_4 by simp
  moreover have "0 \<le> sin (pi / 180)"
    by (rule sin_ge_zero) (use pi_gt_zero in auto)
  ultimately show ?thesis unfolding e by linarith
qed


lemma sin_015:
  "0 \<le> sin (3 / 10 * pi / 180 / 2) \<and> sin (3 / 10 * pi / 180 / 2) \<le> 6 / 10 / 180"
proof -
  have p: "0 \<le> 3 / 10 * pi / 180 / 2" by simp
  have "sin (3 / 10 * pi / 180 / 2) \<le> 3 / 10 * pi / 180 / 2" by (rule sin_x_le_x [OF p])
  moreover have "3 / 10 * pi / 180 / 2 \<le> 6 / 10 / 180" using pi_less_4 by simp
  moreover have "0 \<le> sin (3 / 10 * pi / 180 / 2)"
    by (rule sin_ge_zero) (use pi_gt_zero in auto)
  ultimately show ?thesis by linarith
qed

lemma haversine_c:
  "\<exists>d. haversineDistance \<lparr>Latitude = 89, Longitude = 3 / 10\<rparr> \<lparr>Latitude = 89, Longitude = 0\<rparr>
          = Some d \<and> d \<le> 1000"
proof -
  define C where "C = cos (89 * pi / 180)"
  define S where "S = sin (3 / 10 * pi / 180 / 2)"
  define y where "y = C * S"
  have C: "0 \<le> C" "C \<le> 4 / 180" using cos_89 by (simp_all add: C_def)
  have S: "0 \<le> S" "S \<le> 6 / 10 / 180" using sin_015 by (simp_all add: S_def)
  have y0: "0 \<le> y" using C S by (simp add: y_def)
  have "C * S \<le> (4 / 180) * (6 / 10 / 180)"
    using C S by (intro mult_mono) auto
  then have y1: "y \<le> 1 / 13500" by (simp add: y_def)
  have "y * y \<le> (1 / 13500) * (1 / 13500)"
    using y0 y1 by (intro mult_mono) auto
  then have a1: "y * y \<le> 1 / 182250000" by simp
  have a0: "0 \<le> y * y" by simp
  have sa: "sqrt (y * y) = y" using y0 by simp
  have x0: "1 - 1 / 182250000 \<le> sqrt (1 - y * y)"
  proof -
    have "1 - y * y \<le> sqrt (1 - y * y)"
      by (rule sqrt_ge_self) (use a0 a1 in auto)
    with a1 show ?thesis by linarith
  qed
  then have xp: "0 < sqrt (1 - y * y)" by linarith
  have "y / sqrt (1 - y * y) \<le> (1 / 13500) / (1 - 1 / 182250000)"
    using y0 y1 x0 by (intro frac_le) auto
  moreover have "0 \<le> y / sqrt (1 - y * y)" using y0 xp by simp
  then have "arctan (y / sqrt (1 - y * y)) \<le> y / sqrt (1 - y * y)"
    by (rule arctan_le_self)
  ultimately have at: "arctan (y / sqrt (1 - y * y)) \<le> (1 / 13500) / (1 - 1 / 182250000)"
    by linarith
  have d: "6371000 * (2 * arctan (y / sqrt (1 - y * y))) \<le> 1000"
    using at by simp
  have neg: "sin (- (3 / 10 * pi / 180) / 2) = - S"
    by (simp add: S_def flip: sin_minus)
  have a: "sin ((89 * pi / 180 - 89 * pi / 180) / 2) * sin ((89 * pi / 180 - 89 * pi / 180) / 2) +
        cos (89 * pi / 180) * cos (89 * pi / 180) *
        sin ((0 * pi / 180 - 3 / 10 * pi / 180) / 2) * sin ((0 * pi / 180 - 3 / 10 * pi / 180) / 2)
        = y * y"
    using neg by (simp add: y_def C_def algebra_simps)
  have h: "haversineDistance \<lparr>Latitude = 89, Longitude = 3 / 10\<rparr> \<lparr>Latitude = 89, Longitude = 0\<rparr>
        = Some (6371000 * (2 * arctan (y / sqrt (1 - y * y))))"
    unfolding haversineDistance_def degToRad_def Let_def Point.simps a
    using a0 a1 xp sa by (simp add: math_Sqrt_def math_Atan2_def)
  show ?thesis using h d by blast
qed

lemma store_c_eq:
  "store_c = \<lparr>fences = [(1, fence_c)], fence_index = [(1, GetBounds fence_c)],
               metadata_manifest = None, metadata_version = None, sqlite_sequence = 1\<rparr>"
  by (simp add: store_c_def AddFence_def db_call_def empty_store_def next_rowid_def Let_def)

lemma store_m_eq:
  "store_m = \<lparr>fences = [(1, fence_m)],
               fence_index = [(1, \<lparr>MinLat = 0, MinLon = 0, MaxLat = 10, MaxLon = 10\<rparr>)],
               metadata_manifest = None, metadata_version = None, sqlite_sequence = 1\<rparr>"
  by (simp add: store_m_def AddFence_def db_call_def empty_store_def next_rowid_def
        fence_m_def box10_def GetBounds_def Let_def)

lemma store_ab_eq:
  "store_ab = \<lparr>fences = [(1, fence_a), (2, fence_b)],
               fence_index = [(1, \<lparr>MinLat = 0, MinLon = 0, MaxLat = 10, MaxLon = 10\<rparr>),
                              (2, \<lparr>MinLat = 0, MinLon = 0, MaxLat = 10, MaxLon = 10\<rparr>)],
               metadata_manifest = None, metadata_version = None, sqlite_sequence = 2\<rparr>"
  by (simp add: store_ab_def AddFence_def db_call_def empty_store_def next_rowid_def
        fence_a_def fence_b_def box10_def GetBounds_def Let_def)

lemma cosDegrees_89: "35 / 1000 < cosDegrees 89"
  by (simp add: cosDegrees_def Let_def)

lemma GetBounds_fence_c: "MaxLon (GetBounds fence_c) < 3 / 10"
proof -
  have c: "0 < cosDegrees 89" using cosDegrees_89 by linarith
  have "1000 / 111000 < 3 / 10 * cosDegrees 89" using cosDegrees_89 by linarith
  then have "1000 / 111000 / cosDegrees 89 < 3 / 10"
    using c by (simp only: pos_divide_less_eq)
  then show ?thesis
    by (simp add: GetBounds_def fence_c_def circle89_def Let_def)
qed

lemma joined_rows_c: "joined_rows store_c 89 (3 / 10) = []"
  unfolding store_c_eq using GetBounds_fence_c
  by (simp add: joined_rows_def rtree_covers_def)

lemma ContainsPoint_c: "ContainsPoint fence_c \<lparr>Latitude = 89, Longitude = 3 / 10\<rparr>"
  using haversine_c
  by (auto simp: ContainsPoint_def Geometry_ContainsPoint_def pointInCircle_def
        fence_c_def circle89_def)

lemma active_at_100: "IsActiveAt fence_a 100" "IsActiveAt fence_b 100" "IsActiveAt fence_c 100"
  "IsActiveAt fence_m 100"
  by (simp_all add: IsActiveAt_def fence_a_def fence_b_def fence_c_def fence_m_def)

lemma in_box10:
  "ContainsPoint fence_a \<lparr>Latitude = 5, Longitude = 5\<rparr>"
  "ContainsPoint fence_b \<lparr>Latitude = 5, Longitude = 5\<rparr>"
  "ContainsPoint fence_m \<lparr>Latitude = 5, Longitude = 5\<rparr>"
  by (simp_all add: ContainsPoint_def Geometry_ContainsPoint_def BoundingBox_Contains_def
        fence_a_def fence_b_def fence_m_def box10_def)

lemma row_order_nil:
  assumes "\<forall>rows. mset (row_order rows) = mset rows"
  shows "row_order [] = []"
  using assms [rule_format, of "[]"] by simp

lemma row_order_single:
  assumes "\<forall>rows. mset (row_order rows) = mset rows"
  shows "row_order [f] = [f]"
  using assms [rule_format, of "[f]"] by simp

lemma row_order_pair:
  assumes "\<forall>rows. mset (row_order rows) = mset rows"
  shows "row_order [f, g] = [f, g] \<or> row_order [f, g] = [g, f]"
proof -
  have m: "mset (row_order [f, g]) = {#f, g#}" using assms [rule_format, of "[f, g]"] by simp
  then have "length (row_order [f, g]) = 2" by (metis mset_eq_length length_Cons list.size(3) mset.simps One_nat_def Suc_1)
  then obtain x y where xy: "row_order [f, g] = [x, y]"
    by (auto simp: length_Suc_conv numeral_2_eq_2)
  from m show ?thesis unfolding xy by (auto simp: add_eq_conv_ex)
qed

lemma joined_rows_m: "joined_rows store_m 5 5 = [fence_m]"
  unfolding store_m_eq by (simp add: joined_rows_def rtree_covers_def)

lemma joined_rows_ab: "joined_rows store_ab 5 5 = [fence_a, fence_b]"
  unfolding store_ab_eq by (simp add: joined_rows_def rtree_covers_def)

lemma query_c:
  assumes "\<forall>rows. mset (row_order rows) = mset rows"
  shows "QueryAtPoint row_order 100 store_c 89 (3 / 10) [] = (Inr [], [])"
  by (simp add: QueryAtPoint_def db_call_def order_by_priority_desc_def joined_rows_c
        row_order_nil [OF assms])

lemma query_m:
  assumes "\<forall>rows. mset (row_order rows) = mset rows"
  shows "QueryAtPoint row_order 100 store_m 5 5 [] = (Inr [fence_m], [])"
  by (simp add: QueryAtPoint_def db_call_def order_by_priority_desc_def joined_rows_m
        row_order_single [OF assms] in_box10 active_at_100)

lemma query_ab:
  assumes "\<forall>rows. mset (row_order rows) = mset rows"
  shows "QueryAtPoint row_order 100 store_ab 5 5 [] = (Inr (row_order [fence_a, fence_b]), [])"
proof -
  have p: "Priority fence_a = 5" "Priority fence_b = 5" by (simp_all add: fence_a_def fence_b_def)
  from row_order_pair [OF assms, of fence_a fence_b]
  have "filter (\<lambda>fence. ContainsPoint fence \<lparr>Latitude = 5, Longitude = 5\<rparr> \<and> IsActiveAt fence 100)
          (sort_key (\<lambda>f. - int (Priority f)) (row_order [fence_a, fence_b]))
        = row_order [fence_a, fence_b]"
    by (auto simp: p in_box10 active_at_100)
  then show ?thesis
    by (simp add: QueryAtPoint_def db_call_def order_by_priority_desc_def joined_rows_ab)
qed

lemma Check_results_ab:
  "Check_results [fence_a, fence_b] = (False, Some fence_a)"
  "Check_results [fence_b, fence_a] = (True, Some fence_b)"
  by (simp_all add: Check_results_def fence_a_def fence_b_def FenceTypePermanentNoFly_def
        FenceTypeAltitudeLimit_def FenceTypeTempRestriction_def)

lemma results_m:
  "Check_results [fence_m] = (True, Some fence_m)"
  "Manager_results [fence_m] = (True, None)"
  by (simp_all add: Check_results_def Manager_results_def fence_m_def FenceTypePermanentNoFly_def
        FenceTypeAltitudeLimit_def FenceTypeTempRestriction_def FenceTypeAltitudeMinimum_def
        FenceTypeSpeedLimit_def)

text \<open>
  Claim C5, evaluated on three stores, for every order in which the engine may return
  rows of equal priority.

  The first store holds one fence, a permanent no-fly circle of radius 1000 m around
  89 N 0 E that is active at all times. The point 89 N 0.3 E is inside it: \<open>ContainsPoint\<close>
  holds, the Haversine distance being below 1000 m. \<open>GetBounds\<close> divides the radius in
  degrees by \<open>cosDegrees 89\<close>, a polynomial about twice the cosine there, so the box
  written to the R-Tree ends below longitude 0.3 and the query never reads the fence:
  \<open>Syncer.Check\<close> and \<open>Manager.QueryAtPoint\<close> return \<open>(true, nil)\<close> inside an active
  no-fly zone.

  The second store holds one minimum-altitude fence over a box, active and containing the
  point. \<open>Syncer.Check\<close> returns \<open>(true, fence)\<close>; \<open>Manager.QueryAtPoint\<close> reaches the
  \<open>default\<close> branch of its switch and returns \<open>(true, nil)\<close>.

  The third store holds a no-fly fence \<open>a\<close> and an altitude-limit fence \<open>b\<close> of equal
  priority, both active and containing the point. \<open>Syncer.Check\<close> answers with the one the
  engine returns first, refusing with \<open>a\<close> or allowing with \<open>b\<close>: the ids decide nothing.
\<close>

theorem Check_misses_restrictions:
  assumes "\<forall>rows. mset (sqlite_row_order lib rows) = mset rows"
  shows
    "map snd (fences store_c) = [fence_c] \<and>
     Type fence_c = FenceTypePermanentNoFly \<and>
     IsActiveAt fence_c 100 \<and>
     ContainsPoint fence_c \<lparr>Latitude = 89, Longitude = 3 / 10\<rparr> \<and>
     Syncer_Check lib 100 \<lparr>client = client0, store = store_c, currentVer = 0\<rparr> 89 (3 / 10) []
       = (Inr (True, None), []) \<and>
     Manager_QueryAtPoint lib 100 store_c 89 (3 / 10) [] = (Inr (True, None), []) \<and>
     map snd (fences store_m) = [fence_m] \<and>
     IsActiveAt fence_m 100 \<and>
     ContainsPoint fence_m \<lparr>Latitude = 5, Longitude = 5\<rparr> \<and>
     Syncer_Check lib 100 \<lparr>client = client0, store = store_m, currentVer = 0\<rparr> 5 5 []
       = (Inr (True, Some fence_m), []) \<and>
     Manager_QueryAtPoint lib 100 store_m 5 5 [] = (Inr (True, None), []) \<and>
     map snd (fences store_ab) = [fence_a, fence_b] \<and>
     Priority fence_a = Priority fence_b \<and>
     Syncer_Check lib 100 \<lparr>client = client0, store = store_ab, currentVer = 0\<rparr> 5 5 []
       = (Inr (if hd (sqlite_row_order lib [fence_a, fence_b]) = fence_a
               then (False, Some fence_a) else (True, Some fence_b)), [])"
proof -
  have c1: "map snd (fences store_c) = [fence_c]" by (simp add: store_c_eq)
  have c2: "Type fence_c = FenceTypePermanentNoFly" by (simp add: fence_c_def)
  have c3: "Syncer_Check lib 100 \<lparr>client = client0, store = store_c, currentVer = 0\<rparr> 89 (3 / 10) []
       = (Inr (True, None), [])"
    by (simp add: Syncer_Check_def query_c [OF assms] Check_results_def)
  have c4: "Manager_QueryAtPoint lib 100 store_c 89 (3 / 10) [] = (Inr (True, None), [])"
    by (simp add: Manager_QueryAtPoint_def query_c [OF assms] Manager_results_def)
  have m1: "map snd (fences store_m) = [fence_m]" by (simp add: store_m_eq)
  have m2: "Syncer_Check lib 100 \<lparr>client = client0, store = store_m, currentVer = 0\<rparr> 5 5 []
       = (Inr (True, Some fence_m), [])"
    by (simp add: Syncer_Check_def query_m [OF assms] results_m)
  have m3: "Manager_QueryAtPoint lib 100 store_m 5 5 [] = (Inr (True, None), [])"
    by (simp add: Manager_QueryAtPoint_def query_m [OF assms] results_m)
  have t1: "map snd (fences store_ab) = [fence_a, fence_b]" by (simp add: store_ab_eq)
  have t2: "Priority fence_a = Priority fence_b" by (simp add: fence_a_def fence_b_def)
  have ne: "fence_b \<noteq> fence_a" by (simp add: fence_a_def fence_b_def)
  have t3: "Syncer_Check lib 100 \<lparr>client = client0, store = store_ab, currentVer = 0\<rparr> 5 5 []
       = (Inr (if hd (sqlite_row_order lib [fence_a, fence_b]) = fence_a
               then (False, Some fence_a) else (True, Some fence_b)), [])"
    using row_order_pair [OF assms, of fence_a fence_b] ne
    by (auto simp: Syncer_Check_def query_ab [OF assms] Check_results_ab)
  show ?thesis
    using c1 c2 c3 c4 m1 m2 m3 t1 t2 t3 active_at_100 ContainsPoint_c in_box10 by simp
qed

lemma example_row_order: "\<forall>rows. mset (sqlite_row_order example_lib rows) = mset rows"
  by (simp add: example_lib_def)

theorem Check_misses_restrictions_witness:
  "ContainsPoint fence_c \<lparr>Latitude = 89, Longitude = 3 / 10\<rparr> \<and>
   Syncer_Check example_lib 100 \<lparr>client = client0, store = store_c, currentVer = 0\<rparr> 89 (3 / 10) []
     = (Inr (True, None), []) \<and>
   Syncer_Check example_lib 100 \<lparr>client = client0, store = store_m, currentVer = 0\<rparr> 5 5 []
     = (Inr (True, Some fence_m), []) \<and>
   Manager_QueryAtPoint example_lib 100 store_m 5 5 [] = (Inr (True, None), []) \<and>
   Syncer_Check example_lib 100 \<lparr>client = client0, store = store_ab, currentVer = 0\<rparr> 5 5 []
     = (Inr (False, Some fence_a), [])"
  using Check_misses_restrictions [OF example_row_order]
  by (simp add: example_lib_def)

end
